theory Spec2Isabelle
  imports Complex_Main "HOL-Library.Sublist" "HOL-Library.Multiset"
begin

section \<open>EDH Rankle: the selection, ranking and evaluation logic\<close>

text \<open>
  A shallow embedding of the game logic of \<^verbatim>\<open>src/App.jsx\<close> (pairwise mode) and
  \<^verbatim>\<open>src/Daily.jsx\<close> (daily mode). React state is a record that every handler takes
  and returns; a handler's \<^verbatim>\<open>setX(...)\<close> calls are the fields of the record it
  returns. Everything that comes from outside the two files (the random number generator,
  the clock, the network, the Unicode tables) is a parameter of the function that uses it.

  Numbers. The values whose \<^verbatim>\<open>typeof\<close> is \<^verbatim>\<open>'number'\<close> are the type \<open>number\<close>:
  \<^verbatim>\<open>NaN\<close>, the two infinities, and the finite numbers, each modelled by the real number
  it denotes. A variable or property that holds \<^verbatim>\<open>null\<close>, \<^verbatim>\<open>undefined\<close> or any other
  value that is not a number is \<open>None\<close>. In daily mode a card gets its rank only after the
  test \<^verbatim>\<open>typeof rank === 'number' && rank > 0\<close>; the ranks of daily cards are real
  numbers.
\<close>

subsection \<open>Pairwise mode: the state and the guess evaluator\<close>

datatype number = NaN | NegInf | Fin real | PosInf

text \<open>
  \<^verbatim>\<open>a === b\<close>, \<^verbatim>\<open>a < b\<close> and \<^verbatim>\<open>a <= b\<close> on numbers: every comparison with
  \<^verbatim>\<open>NaN\<close> is false.
\<close>

fun strict_eq :: "number \<Rightarrow> number \<Rightarrow> bool" where
  "strict_eq NaN b = False"
| "strict_eq a NaN = False"
| "strict_eq a b = (a = b)"

fun less_than :: "number \<Rightarrow> number \<Rightarrow> bool" where
  "less_than NaN b = False"
| "less_than a NaN = False"
| "less_than PosInf b = False"
| "less_than a NegInf = False"
| "less_than NegInf b = True"
| "less_than (Fin a) (Fin b) = (a < b)"
| "less_than (Fin a) PosInf = True"

definition at_most :: "number \<Rightarrow> number \<Rightarrow> bool" where
  "at_most a b = (less_than a b \<or> strict_eq a b)"

text \<open>
  \<^verbatim>\<open>leftMeta\<close> and \<^verbatim>\<open>rightMeta\<close> hold either \<^verbatim>\<open>{ error: "..." }\<close> or a candidate
  \<^verbatim>\<open>{ name, ..., rank }\<close> (the presentation fields are left out). \<open>meta_rank\<close> is the
  property read \<^verbatim>\<open>meta.rank\<close>: \<open>None\<close> when the property is missing or not a number.
\<close>

datatype meta = ErrorMeta string | CardMeta string "number option"

fun meta_name :: "meta \<Rightarrow> string option" where
  "meta_name (ErrorMeta e) = None"
| "meta_name (CardMeta n r) = Some n"

fun meta_rank :: "meta \<Rightarrow> number option" where
  "meta_rank (ErrorMeta e) = None"
| "meta_rank (CardMeta n r) = r"

datatype side = Left | Right

text \<open>The value of \<^verbatim>\<open>correct\<close> and of the state \<^verbatim>\<open>result\<close>: \<^verbatim>\<open>'left'\<close>, \<^verbatim>\<open>'right'\<close> or \<^verbatim>\<open>'tie'\<close>.\<close>

datatype outcome = Side side | Tie

record game_state =
  leftMeta :: "meta option"
  rightMeta :: "meta option"
  streak :: nat
  lastStreak :: "nat option"
  highestStreak :: nat
  result :: "outcome option"
  loadingPair :: bool
  userGuess :: "side option"
  includePartner :: bool
  includeUnreleased :: bool
  includeIllegal :: bool

text \<open>\<^verbatim>\<open>typeof meta.rank === 'number' ? meta.rank : Number.POSITIVE_INFINITY\<close>\<close>

definition rank_or_infinity :: "meta \<Rightarrow> number" where
  "rank_or_infinity m = (case meta_rank m of Some r \<Rightarrow> r | None \<Rightarrow> PosInf)"

definition classify :: "number \<Rightarrow> number \<Rightarrow> outcome" where
  "classify lRank rRank =
     (if strict_eq lRank rRank then Tie
      else if less_than lRank rRank then Side Left
      else Side Right)"

text \<open>
  \<^verbatim>\<open>makeGuess(side)\<close>. The updater passed to \<^verbatim>\<open>setStreak\<close> runs on the streak of the
  state the handler was called in, and reads \<^verbatim>\<open>highestStreak\<close> from the same state.
\<close>

definition makeGuess :: "side \<Rightarrow> game_state \<Rightarrow> game_state" where
  "makeGuess sd s =
     (case (leftMeta s, rightMeta s) of
        (Some l, Some r) \<Rightarrow>
          (let s1 = s\<lparr>userGuess := Some sd\<rparr>;
               lRank = rank_or_infinity l;
               rRank = rank_or_infinity r;
               correct = classify lRank rRank;
               s2 = (if correct = Side sd then
                       (let newStreak = streak s + 1
                        in s1\<lparr>streak := newStreak,
                              highestStreak := (if newStreak > highestStreak s then newStreak
                                                else highestStreak s)\<rparr>)
                     else if correct = Tie then s1
                     else s1\<lparr>lastStreak := Some (streak s), streak := 0\<rparr>)
           in s2\<lparr>result := Some correct\<rparr>)
      | _ \<Rightarrow> s)"

text \<open>
  Rounds for the examples: two candidates with given ranks, or with ranks that may be
  missing, at a streak of 2 and a high-water mark of 4.
\<close>

definition example_round :: "number \<Rightarrow> number \<Rightarrow> game_state" where
  "example_round a b =
     \<lparr>leftMeta = Some (CardMeta ''Atraxa'' (Some a)), rightMeta = Some (CardMeta ''Krenko'' (Some b)),
      streak = 2, lastStreak = None, highestStreak = 4, result = None, loadingPair = False,
      userGuess = None, includePartner = True, includeUnreleased = True, includeIllegal = True\<rparr>"

definition unranked_round :: "number option \<Rightarrow> number option \<Rightarrow> game_state" where
  "unranked_round a b =
     \<lparr>leftMeta = Some (CardMeta ''Atraxa'' a), rightMeta = Some (CardMeta ''Krenko'' b),
      streak = 2, lastStreak = None, highestStreak = 4, result = None, loadingPair = False,
      userGuess = None, includePartner = True, includeUnreleased = True, includeIllegal = True\<rparr>"

subsection \<open>Drawing two distinct candidates\<close>

text \<open>
  \<^verbatim>\<open>Math.floor(Math.random() * n)\<close>, for the value \<open>u\<close> that \<^verbatim>\<open>Math.random()\<close>
  returned (a number with \<open>0 \<le> u < 1\<close>; the product is taken exactly).
\<close>

definition random_index :: "real \<Rightarrow> nat \<Rightarrow> nat" where
  "random_index u n = nat \<lfloor>u * real n\<rfloor>"

text \<open>\<^verbatim>\<open>arr[i]\<close>: \<^verbatim>\<open>undefined\<close> (here \<open>None\<close>) when \<open>i\<close> is out of range.\<close>

definition element :: "'a list \<Rightarrow> nat \<Rightarrow> 'a option" where
  "element arr i = (if i < length arr then Some (arr ! i) else None)"

text \<open>The two indices read by \<^verbatim>\<open>pickTwoDistinct\<close>, from the two floored draws.\<close>

definition picked_indices :: "nat \<times> nat \<Rightarrow> nat \<times> nat" where
  "picked_indices d = (case d of (a, b) \<Rightarrow> (a, if b \<ge> a then b + 1 else b))"

text \<open>
  \<^verbatim>\<open>pickTwoDistinct(arr)\<close>; \<open>u\<close> and \<open>v\<close> are the values of its two calls of
  \<^verbatim>\<open>Math.random()\<close>. \<open>None\<close> is the result \<^verbatim>\<open>null\<close>.
\<close>

definition pickTwoDistinct :: "'a list \<Rightarrow> real \<Rightarrow> real \<Rightarrow> ('a option \<times> 'a option) option" where
  "pickTwoDistinct arr u v =
     (if length arr < 2 then None
      else (let a = random_index u (length arr);
                b = random_index v (length arr - 1);
                b = (if b \<ge> a then b + 1 else b)
            in Some (element arr a, element arr b)))"

text \<open>
  The pairs of floored draws for an array of length \<open>n\<close>, the ordered pairs of distinct
  indices, and the unordered pair of an ordered one.
\<close>

definition draws :: "nat \<Rightarrow> (nat \<times> nat) set" where
  "draws n = {0..<n} \<times> {0..<n - 1}"

definition ordered_pairs :: "nat \<Rightarrow> (nat \<times> nat) set" where
  "ordered_pairs n = {(i, j). i < n \<and> j < n \<and> i \<noteq> j}"

definition unordered :: "nat \<times> nat \<Rightarrow> nat set" where
  "unordered p = {fst p, snd p}"

subsection \<open>The commander filter\<close>

text \<open>
  A record of \<^verbatim>\<open>commanders.json\<close>, with the fields the logic reads. A field is \<open>None\<close>
  when the property is missing (or, for the \<^verbatim>\<open>keywords\<close>, not an array). \<open>rank\<close> is the property
  that the daily mode adds to the cards it draws.
\<close>

record card =
  name :: string
  card_id :: string
  card_keywords :: "string list option"
  released_at :: "string option"
  legalities :: "(string \<rightharpoonup> string) option"
  rank :: "real option"

text \<open>
  The callback of \<^verbatim>\<open>commanders.filter\<close> in \<^verbatim>\<open>getFilteredCommanders\<close>. \<open>Date_parse\<close>
  is the time value of \<^verbatim>\<open>new Date(string)\<close> in milliseconds, \<open>None\<close> for an invalid date
  (whose comparison with \<^verbatim>\<open>now\<close> is false); \<open>now\<close> is the time value of
  \<^verbatim>\<open>new Date()\<close>. The empty string is falsy, so \<^verbatim>\<open>card.released_at &&\<close> stops there.
\<close>

definition keeps :: "(string \<Rightarrow> int option) \<Rightarrow> int \<Rightarrow> game_state \<Rightarrow> card \<Rightarrow> bool" where
  "keeps Date_parse now s c =
     (if \<not> includePartner s \<and>
         (case card_keywords c of Some ks \<Rightarrow> ''Partner'' \<in> set ks | None \<Rightarrow> False) then False
      else if \<not> includeUnreleased s \<and>
         (case released_at c of
            Some d \<Rightarrow> d \<noteq> [] \<and> (case Date_parse d of Some t \<Rightarrow> t > now | None \<Rightarrow> False)
          | None \<Rightarrow> False) then False
      else if \<not> includeIllegal s \<and>
         (case legalities c of Some l \<Rightarrow> l ''commander'' \<noteq> Some ''legal'' | None \<Rightarrow> False) then False
      else True)"

definition getFilteredCommanders ::
  "(string \<Rightarrow> int option) \<Rightarrow> int \<Rightarrow> card list \<Rightarrow> game_state \<Rightarrow> card list" where
  "getFilteredCommanders Date_parse now commanders s = filter (keeps Date_parse now s) commanders"

text \<open>
  The three exclusion conditions in the words of the specification. The release date of a
  card is the parsed \<open>released_at\<close>, its commander-format legality the entry
  \<^verbatim>\<open>legalities.commander\<close>; both are \<open>None\<close> when the card has none.
\<close>

definition release_date :: "(string \<Rightarrow> int option) \<Rightarrow> card \<Rightarrow> int option" where
  "release_date Date_parse c = (case released_at c of Some d \<Rightarrow> Date_parse d | None \<Rightarrow> None)"

definition commander_legality :: "card \<Rightarrow> string option" where
  "commander_legality c = (case legalities c of Some l \<Rightarrow> l ''commander'' | None \<Rightarrow> None)"

definition excluded_partner :: "game_state \<Rightarrow> card \<Rightarrow> bool" where
  "excluded_partner s c =
     (\<not> includePartner s \<and> (case card_keywords c of Some ks \<Rightarrow> ''Partner'' \<in> set ks | None \<Rightarrow> False))"

definition excluded_unreleased :: "(string \<Rightarrow> int option) \<Rightarrow> int \<Rightarrow> game_state \<Rightarrow> card \<Rightarrow> bool" where
  "excluded_unreleased Date_parse now s c =
     (\<not> includeUnreleased s \<and>
      (case release_date Date_parse c of Some t \<Rightarrow> t > now | None \<Rightarrow> False))"

definition excluded_illegal :: "game_state \<Rightarrow> card \<Rightarrow> bool" where
  "excluded_illegal s c = (\<not> includeIllegal s \<and> commander_legality c \<noteq> Some ''legal'')"

text \<open>The filter as the specification states it.\<close>

definition spec_filter :: "(string \<Rightarrow> int option) \<Rightarrow> int \<Rightarrow> card list \<Rightarrow> game_state \<Rightarrow> card list" where
  "spec_filter Date_parse now commanders s =
     filter (\<lambda>c. \<not> excluded_partner s c \<and> \<not> excluded_unreleased Date_parse now s c \<and>
                 \<not> excluded_illegal s c) commanders"

text \<open>
  The legality condition as the code has it: only a card that has a \<^verbatim>\<open>legalities\<close>
  object can be excluded by the toggle.
\<close>

definition excluded_illegal_listed :: "game_state \<Rightarrow> card \<Rightarrow> bool" where
  "excluded_illegal_listed s c =
     (\<not> includeIllegal s \<and> legalities c \<noteq> None \<and> commander_legality c \<noteq> Some ''legal'')"

text \<open>The state a \<^verbatim>\<open>CommanderGuessGame\<close> starts in, for given values of the three toggles.\<close>

definition initial_state :: "bool \<Rightarrow> bool \<Rightarrow> bool \<Rightarrow> game_state" where
  "initial_state partner unreleased illegal =
     \<lparr>leftMeta = None, rightMeta = None, streak = 0, lastStreak = None, highestStreak = 0,
      result = None, loadingPair = False, userGuess = None,
      includePartner = partner, includeUnreleased = unreleased, includeIllegal = illegal\<rparr>"

definition plain_card :: "string \<Rightarrow> card" where
  "plain_card n =
     \<lparr>name = n, card_id = n, card_keywords = None, released_at = None, legalities = None,
      rank = None\<rparr>"

text \<open>A small table standing for the date parser: two ISO dates, as milliseconds since 1970.\<close>

definition example_dates :: "string \<Rightarrow> int option" where
  "example_dates d =
     (if d = ''2020-01-01'' then Some 1577836800000
      else if d = ''2030-01-01'' then Some 1893456000000
      else None)"

definition example_pool :: "card list" where
  "example_pool =
     [(plain_card ''Tymna'')\<lparr>card_keywords := Some [''Lifelink'', ''Partner''],
         released_at := Some ''2020-01-01'', legalities := Some [''commander'' \<mapsto> ''legal'']\<rparr>,
      (plain_card ''Atraxa'')\<lparr>card_keywords := Some [''Flying''],
         released_at := Some ''2020-01-01'', legalities := Some [''commander'' \<mapsto> ''legal'']\<rparr>,
      (plain_card ''Future'')\<lparr>card_keywords := Some [],
         released_at := Some ''2030-01-01'', legalities := Some [''commander'' \<mapsto> ''legal'']\<rparr>,
      (plain_card ''Golos'')\<lparr>card_keywords := Some [],
         released_at := Some ''2020-01-01'', legalities := Some [''commander'' \<mapsto> ''banned'']\<rparr>,
      (plain_card ''Krenko'')\<lparr>released_at := Some [],
         legalities := Some [''commander'' \<mapsto> ''legal'']\<rparr>]"

subsection \<open>Pairwise mode: drawing a pair\<close>

datatype error = TypeError | Rejected

text \<open>
  The rank resolver as \<^verbatim>\<open>loadNewPair\<close> sees it: the answer to the call made for a name
  in the iteration in which \<^verbatim>\<open>attempts\<close> has the given value. \<open>Inr (Some r)\<close> is a
  number, \<open>Inr None\<close> is \<^verbatim>\<open>null\<close>, \<open>Inl e\<close> a rejected promise.
\<close>

type_synonym resolver = "nat \<Rightarrow> string \<Rightarrow> error + number option"

text \<open>
  \<^verbatim>\<open>typeof rank !== 'number' || rank <= 0\<close>, for a variable that is \<open>None\<close> while it
  holds \<^verbatim>\<open>undefined\<close> or \<^verbatim>\<open>null\<close>.
\<close>

definition not_positive :: "number option \<Rightarrow> bool" where
  "not_positive r = (case r of None \<Rightarrow> True | Some x \<Rightarrow> at_most x (Fin 0))"

text \<open>
  One execution of the body of the \<^verbatim>\<open>do ... while\<close> loop, up to (not including) the
  increment of \<^verbatim>\<open>attempts\<close>: the new values of \<^verbatim>\<open>left\<close>, \<^verbatim>\<open>right\<close>,
  \<^verbatim>\<open>leftRank\<close> and \<^verbatim>\<open>rightRank\<close>, or the exception thrown. \<open>rnd k\<close> is the value of
  the \<open>k\<close>-th call of \<^verbatim>\<open>Math.random()\<close>; every iteration makes two calls. With equal
  names the body \<^verbatim>\<open>continue\<close>s and the rank variables keep their values.
\<close>

definition attempt ::
  "card list \<Rightarrow> (nat \<Rightarrow> real) \<Rightarrow> resolver \<Rightarrow> nat \<Rightarrow> number option \<Rightarrow> number option \<Rightarrow>
     error + (card \<times> card \<times> number option \<times> number option)" where
  "attempt filtered rnd fetchRank attempts leftRank rightRank =
     (case pickTwoDistinct filtered (rnd (2 * attempts)) (rnd (2 * attempts + 1)) of
        None \<Rightarrow> Inl TypeError
      | Some (None, _) \<Rightarrow> Inl TypeError
      | Some (Some left, None) \<Rightarrow> Inl TypeError
      | Some (Some left, Some right) \<Rightarrow>
          (if name left = name right then Inr (left, right, leftRank, rightRank)
           else (case (fetchRank attempts (name left), fetchRank attempts (name right)) of
                   (Inr lRank, Inr rRank) \<Rightarrow> Inr (left, right, lRank, rRank)
                 | (Inl e, _) \<Rightarrow> Inl e
                 | (_, Inl e) \<Rightarrow> Inl e)))"

text \<open>The condition of the \<^verbatim>\<open>while\<close>, without its bound on \<^verbatim>\<open>attempts\<close>.\<close>

definition invalid_pair :: "card \<Rightarrow> card \<Rightarrow> number option \<Rightarrow> number option \<Rightarrow> bool" where
  "invalid_pair left right leftRank rightRank =
     (not_positive leftRank \<or> not_positive rightRank \<or> name left = name right)"

text \<open>
  The loop, from the iteration in which \<^verbatim>\<open>attempts\<close> has the given value: the values of
  \<^verbatim>\<open>left\<close>, \<^verbatim>\<open>right\<close>, \<^verbatim>\<open>leftRank\<close>, \<^verbatim>\<open>rightRank\<close> and \<^verbatim>\<open>attempts\<close> when it is
  left, or the exception that ended it.
\<close>

function draw_loop ::
  "card list \<Rightarrow> (nat \<Rightarrow> real) \<Rightarrow> resolver \<Rightarrow> nat \<Rightarrow> number option \<Rightarrow> number option \<Rightarrow>
     error + (card \<times> card \<times> number option \<times> number option \<times> nat)" where
  "draw_loop filtered rnd fetchRank attempts leftRank rightRank =
     (case attempt filtered rnd fetchRank attempts leftRank rightRank of
        Inl e \<Rightarrow> Inl e
      | Inr (left, right, lRank, rRank) \<Rightarrow>
          (if invalid_pair left right lRank rRank \<and> attempts + 1 < 10
           then draw_loop filtered rnd fetchRank (attempts + 1) lRank rRank
           else Inr (left, right, lRank, rRank, attempts + 1)))"
  by pat_completeness auto

termination
  by (relation "measure (\<lambda>(filtered, rnd, fetchRank, attempts, leftRank, rightRank). 10 - attempts)")
    auto

declare draw_loop.simps [simp del]

text \<open>
  \<^verbatim>\<open>loadNewPair\<close>: the state after the promise it returns has settled. An exception
  inside the \<^verbatim>\<open>try\<close> is caught; \<^verbatim>\<open>finally\<close> clears \<^verbatim>\<open>loadingPair\<close> on every path.
\<close>

definition both_sides :: "meta \<Rightarrow> meta \<Rightarrow> game_state \<Rightarrow> game_state" where
  "both_sides l r s = s\<lparr>leftMeta := Some l, rightMeta := Some r, loadingPair := False\<rparr>"

definition loadNewPair ::
  "(string \<Rightarrow> int option) \<Rightarrow> int \<Rightarrow> card list \<Rightarrow> (nat \<Rightarrow> real) \<Rightarrow> resolver \<Rightarrow>
     game_state \<Rightarrow> game_state" where
  "loadNewPair Date_parse now commanders rnd fetchRank s =
     (let s0 = s\<lparr>result := None, leftMeta := None, rightMeta := None, loadingPair := True\<rparr>;
          filtered = getFilteredCommanders Date_parse now commanders s
      in if length filtered < 2 then
           both_sides (ErrorMeta ''Not enough commanders match the filters.'')
             (ErrorMeta ''Not enough commanders match the filters.'') s0
         else
           (case draw_loop filtered rnd fetchRank 0 None None of
              Inl e \<Rightarrow>
                both_sides (ErrorMeta ''Failed to fetch commander from list.'')
                  (ErrorMeta ''Failed to fetch commander from list.'') s0
            | Inr (left, right, leftRank, rightRank, attempts) \<Rightarrow>
                (if leftRank = None \<or> rightRank = None \<or> name left = name right then
                   both_sides (ErrorMeta ''Failed to fetch valid commander from list.'')
                     (ErrorMeta ''Failed to fetch valid commander from list.'') s0
                 else
                   both_sides (CardMeta (name left) leftRank) (CardMeta (name right) rightRank) s0)))"

text \<open>A pool and a resolver on which no attempt of the loop succeeds.\<close>

definition stuck_pool :: "card list" where
  "stuck_pool = [plain_card ''Atraxa'', plain_card ''Krenko'']"

definition zero_rank :: resolver where
  "zero_rank k n = Inr (if n = ''Atraxa'' then Some (Fin 0) else Some (Fin 25))"

text \<open>A resolver that answers \<^verbatim>\<open>NaN\<close> for one of the two cards.\<close>

definition nan_rank :: resolver where
  "nan_rank k n = Inr (if n = ''Atraxa'' then Some NaN else Some (Fin 25))"

subsection \<open>Daily mode: the state, the guess evaluator and the guess button\<close>

text \<open>An entry of \<^verbatim>\<open>guessHistory\<close>: \<^verbatim>\<open>{ correctness, ids }\<close>.\<close>

record guess =
  correctness :: "bool list"
  ids :: string

record daily_state =
  commanderList :: "card list"
  order :: "card list"
  guessHistory :: "guess list"
  isSolved :: bool
  correctPositions :: "bool list"

text \<open>\<^verbatim>\<open>cards.map(card => card.rank ?? 9999)\<close>\<close>

definition getRanks :: "card list \<Rightarrow> real list" where
  "getRanks cards = map (\<lambda>c. case rank c of Some r \<Rightarrow> r | None \<Rightarrow> 9999) cards"

text \<open>
  \<^verbatim>\<open>strings.join(sep)\<close>, for an array of strings (every card of the data set has a
  string \<^verbatim>\<open>id\<close>).
\<close>

fun join :: "string \<Rightarrow> string list \<Rightarrow> string" where
  "join sep [] = []"
| "join sep [x] = x"
| "join sep (x # y # ys) = x @ sep @ join sep (y # ys)"

text \<open>
  \<^verbatim>\<open>handleGuess\<close>. \<^verbatim>\<open>[...ranks].sort((a, b) => a - b)\<close> sorts the numbers in ascending
  order; \<^verbatim>\<open>ranks.map((rank, i) => rank === sortedRanks[i])\<close> reads the sorted array at
  the indices of \<^verbatim>\<open>ranks\<close>, which has the same length.
\<close>

definition handleGuess :: "daily_state \<Rightarrow> daily_state" where
  "handleGuess s =
     (let ranks = getRanks (order s);
          sortedRanks = sort ranks;
          correctness = map (\<lambda>i. ranks ! i = sortedRanks ! i) [0..<length ranks];
          ids = join '','' (map card_id (order s))
      in s\<lparr>guessHistory := guessHistory s @ [\<lparr>correctness = correctness, ids = ids\<rparr>],
           correctPositions := correctness,
           isSolved := (if list_all (\<lambda>b. b) correctness then True else isSolved s)\<rparr>)"

text \<open>The \<^verbatim>\<open>disabled\<close> attribute of the guess button.\<close>

definition guess_disabled :: "daily_state \<Rightarrow> bool" where
  "guess_disabled s =
     (if isSolved s then False
      else if guessHistory s = [] then False
      else (let lastGuess = last (guessHistory s);
                currentIds = join '','' (map card_id (order s))
            in ids lastGuess = currentIds))"

text \<open>\<^verbatim>\<open>setOrder(newOrder)\<close>, as the drag handlers call it.\<close>

definition setOrder :: "card list \<Rightarrow> daily_state \<Rightarrow> daily_state" where
  "setOrder newOrder s = s\<lparr>order := newOrder\<rparr>"

text \<open>The state of a round that has just been drawn.\<close>

definition new_round :: "card list \<Rightarrow> daily_state" where
  "new_round cards =
     \<lparr>commanderList = cards, order = cards, guessHistory = [], isSolved = False,
      correctPositions = []\<rparr>"

definition ranked_card :: "string \<Rightarrow> string \<Rightarrow> real \<Rightarrow> card" where
  "ranked_card n i r = (plain_card n)\<lparr>card_id := i, rank := Some r\<rparr>"

text \<open>A round of three cards.\<close>

definition abc_round :: daily_state where
  "abc_round = new_round
     [ranked_card ''A'' ''a'' 10, ranked_card ''B'' ''b'' 3, ranked_card ''C'' ''c'' 7]"

subsection \<open>Daily mode: the seed of the day and the seeded draw\<close>

text \<open>
  What \<^verbatim>\<open>getDailySeed\<close> reads of the instant \<^verbatim>\<open>new Date()\<close>: \<^verbatim>\<open>getUTCFullYear()\<close>,
  \<^verbatim>\<open>getUTCMonth()\<close> (0 to 11) and \<^verbatim>\<open>getUTCDate()\<close> (1 to 31); the rest of the
  instant is its number of milliseconds since the UTC midnight before it.
\<close>

record utc_instant =
  utcFullYear :: int
  utcMonth :: nat
  utcDate :: nat
  utcMillisOfDay :: nat

text \<open>Decimal digits: the string of a non-negative integer, and of an integer.\<close>

definition digit_char :: "nat \<Rightarrow> char" where
  "digit_char d = ''0123456789'' ! d"

fun digits :: "nat \<Rightarrow> string" where
  "digits n = (if n < 10 then [digit_char n] else digits (n div 10) @ [digit_char (n mod 10)])"

declare digits.simps [simp del]

text \<open>\<^verbatim>\<open>String(i)\<close>, \<^verbatim>\<open>i.toString()\<close> and \<^verbatim>\<open>`${i}`\<close> for an integer \<open>i\<close>.\<close>

definition toString :: "int \<Rightarrow> string" where
  "toString i = (if i < 0 then CHR ''-'' # digits (nat (- i)) else digits (nat i))"

text \<open>\<^verbatim>\<open>s.padStart(2, '0')\<close>\<close>

definition padStart2 :: "string \<Rightarrow> string" where
  "padStart2 s = replicate (2 - length s) CHR ''0'' @ s"

definition is_digit :: "char \<Rightarrow> bool" where
  "is_digit c = (48 \<le> (of_char c :: nat) \<and> (of_char c :: nat) \<le> 57)"

definition digit_value :: "char \<Rightarrow> nat" where
  "digit_value c = of_char c - 48"

definition decimal_value :: "string \<Rightarrow> nat" where
  "decimal_value s = foldl (\<lambda>a c. 10 * a + digit_value c) 0 s"

text \<open>
  \<^verbatim>\<open>Number(s)\<close> for a string: the empty string is 0, a string of decimal digits with an
  optional minus sign is its value, and \<open>None\<close> stands for every other result (\<^verbatim>\<open>NaN\<close>,
  or a literal form that the strings built by \<^verbatim>\<open>getDailySeed\<close> never have).
\<close>

definition Number :: "string \<Rightarrow> int option" where
  "Number s =
     (case s of
        [] \<Rightarrow> Some 0
      | c # r \<Rightarrow>
          if c = CHR ''-'' then
            (if r \<noteq> [] \<and> list_all is_digit r then Some (- int (decimal_value r)) else None)
          else if list_all is_digit s then Some (int (decimal_value s)) else None)"

definition getDailySeed :: "utc_instant \<Rightarrow> int option" where
  "getDailySeed now =
     (let year = utcFullYear now;
          month = padStart2 (toString (int (utcMonth now + 1)));
          day = padStart2 (toString (int (utcDate now)))
      in Number (toString year @ month @ day))"

text \<open>
  \<^verbatim>\<open>seededRandom(seed)\<close>. \<open>Math_sin\<close> stands for the engine's \<^verbatim>\<open>Math.sin\<close>, whose
  values the language leaves to the implementation.
\<close>

definition seededRandom :: "(real \<Rightarrow> real) \<Rightarrow> real \<Rightarrow> real" where
  "seededRandom Math_sin seed = (let x = Math_sin seed * 10000 in x - of_int \<lfloor>x\<rfloor>)"

text \<open>\<^verbatim>\<open>arr.splice(idx, 1)\<close>: the array without its element at \<open>idx\<close>.\<close>

definition splice1 :: "'a list \<Rightarrow> nat \<Rightarrow> 'a list" where
  "splice1 arr idx = take idx arr @ drop (idx + 1) arr"

text \<open>\<^verbatim>\<open>typeof rank === 'number' && rank > 0\<close>\<close>

definition positive_number :: "real option \<Rightarrow> bool" where
  "positive_number r = (case r of Some x \<Rightarrow> x > 0 | None \<Rightarrow> False)"

text \<open>
  The \<^verbatim>\<open>while\<close> loop of \<^verbatim>\<open>pickValidRankedCommanders\<close>, from the values of \<^verbatim>\<open>arr\<close>,
  \<^verbatim>\<open>result\<close> (here \<open>results\<close>) and \<^verbatim>\<open>attempts\<close> before an iteration. \<open>fetchRank\<close> is the answer of the
  rank resolver for a name (\<open>Inl\<close>: a rejected promise, which nothing catches here).
  Reading \<^verbatim>\<open>card.name\<close> of a missing element throws.
\<close>

function pick_loop ::
  "(real \<Rightarrow> real) \<Rightarrow> (string \<Rightarrow> error + real option) \<Rightarrow> int \<Rightarrow> nat \<Rightarrow> nat \<Rightarrow>
     card list \<Rightarrow> card list \<Rightarrow> nat \<Rightarrow> error + card list" where
  "pick_loop Math_sin fetchRank seedBase n maxAttempts arr results attempts =
     (if length results < n \<and> arr \<noteq> [] \<and> attempts < maxAttempts then
        (let idx = random_index (seededRandom Math_sin (of_int seedBase + real attempts))
                     (length arr)
         in case element arr idx of
              None \<Rightarrow> Inl TypeError
            | Some c \<Rightarrow>
                (case fetchRank (name c) of
                   Inl e \<Rightarrow> Inl e
                 | Inr r \<Rightarrow>
                     pick_loop Math_sin fetchRank seedBase n maxAttempts (splice1 arr idx)
                       (if positive_number r then results @ [c\<lparr>rank := r\<rparr>] else results)
                       (attempts + 1)))
      else Inr results)"
  by pat_completeness auto

termination
  by (relation "measure (\<lambda>(Math_sin, fetchRank, seedBase, n, maxAttempts, arr, results, attempts).
        maxAttempts - attempts)") auto

declare pick_loop.simps [simp del]

text \<open>
  \<^verbatim>\<open>pickValidRankedCommanders(n, maxAttempts)\<close> for the filtered pool \<open>pool\<close> at the
  instant \<open>now\<close>. With a seed that is not a number the first iteration reads a missing
  element.
\<close>

definition pickValidRankedCommanders ::
  "(real \<Rightarrow> real) \<Rightarrow> card list \<Rightarrow> (string \<Rightarrow> error + real option) \<Rightarrow> utc_instant \<Rightarrow>
     nat \<Rightarrow> nat \<Rightarrow> error + card list" where
  "pickValidRankedCommanders Math_sin pool fetchRank now n maxAttempts =
     (case getDailySeed now of
        Some seedBase \<Rightarrow> pick_loop Math_sin fetchRank seedBase n maxAttempts pool [] 0
      | None \<Rightarrow> (if 0 < n \<and> pool \<noteq> [] \<and> 0 < maxAttempts then Inl TypeError else Inr []))"

text \<open>
  The UTC calendar: how many days a month has, which instants are instants of the
  calendar, when two instants lie on the same day, and the first instant of the next day.
\<close>

definition leap_year :: "int \<Rightarrow> bool" where
  "leap_year y = (y mod 4 = 0 \<and> (y mod 100 \<noteq> 0 \<or> y mod 400 = 0))"

definition days_in_month :: "int \<Rightarrow> nat \<Rightarrow> nat" where
  "days_in_month y m =
     (if m = 1 then (if leap_year y then 29 else 28)
      else if m = 3 \<or> m = 5 \<or> m = 8 \<or> m = 10 then 30
      else 31)"

definition valid_instant :: "utc_instant \<Rightarrow> bool" where
  "valid_instant t =
     (utcMonth t \<le> 11 \<and> 1 \<le> utcDate t \<and> utcDate t \<le> days_in_month (utcFullYear t) (utcMonth t) \<and>
      utcMillisOfDay t < 86400000)"

definition same_utc_day :: "utc_instant \<Rightarrow> utc_instant \<Rightarrow> bool" where
  "same_utc_day a b =
     (utcFullYear a = utcFullYear b \<and> utcMonth a = utcMonth b \<and> utcDate a = utcDate b)"

definition next_day :: "utc_instant \<Rightarrow> utc_instant" where
  "next_day t =
     (if utcDate t < days_in_month (utcFullYear t) (utcMonth t) then
        t\<lparr>utcDate := utcDate t + 1, utcMillisOfDay := 0\<rparr>
      else if utcMonth t < 11 then
        t\<lparr>utcMonth := utcMonth t + 1, utcDate := 1, utcMillisOfDay := 0\<rparr>
      else
        t\<lparr>utcFullYear := utcFullYear t + 1, utcMonth := 0, utcDate := 1, utcMillisOfDay := 0\<rparr>)"

text \<open>The seed as a number: the digits of year, month and day read as one decimal numeral.\<close>

definition seed_value :: "utc_instant \<Rightarrow> int" where
  "seed_value t =
     (let k = \<bar>utcFullYear t\<bar> * 10000 + int (utcMonth t + 1) * 100 + int (utcDate t)
      in if utcFullYear t < 0 then - k else k)"

definition seed_digits :: "utc_instant \<Rightarrow> int" where
  "seed_digits t = \<bar>utcFullYear t\<bar> * 10000 + int (utcMonth t + 1) * 100 + int (utcDate t)"

definition leap_day :: "nat \<Rightarrow> utc_instant" where
  "leap_day ms = \<lparr>utcFullYear = 2024, utcMonth = 1, utcDate = 29, utcMillisOfDay = ms\<rparr>"

definition example_ranks :: "string \<Rightarrow> error + real option" where
  "example_ranks n =
     Inr (if n = ''Atraxa'' then Some 5 else if n = ''Krenko'' then Some 2 else None)"

subsection \<open>The slug of a card name\<close>

text \<open>
  A string is a list of characters. The three steps of \<^verbatim>\<open>slugify\<close> that consult the
  Unicode tables -- \<^verbatim>\<open>normalize('NFD')\<close>, the removal of the characters with the Unicode property Diacritic, and
  \<^verbatim>\<open>toLowerCase()\<close> -- are parameters; the three replacements with ASCII patterns are
  written out.
\<close>

text \<open>The class \<^verbatim>\<open>[a-z0-9]\<close>.\<close>

definition is_alnum :: "char \<Rightarrow> bool" where
  "is_alnum c = ((97 \<le> (of_char c :: nat) \<and> (of_char c :: nat) \<le> 122) \<or>
                 (48 \<le> (of_char c :: nat) \<and> (of_char c :: nat) \<le> 57))"

text \<open>
  The characters of the class in the first ASCII replacement, whose matches are removed:
  the two quotation marks, \<^verbatim>\<open>!\<close>, \<^verbatim>\<open>?\<close>, the two parentheses, the colon, the comma and
  the full stop.
\<close>

definition punctuation :: "char list" where
  "punctuation = [CHR 0x22, CHR 0x27, CHR ''!'', CHR ''?'', CHR ''('', CHR '')'', CHR '':'',
                  CHR '','', CHR ''.'']"

definition remove_punctuation :: "string \<Rightarrow> string" where
  "remove_punctuation s = filter (\<lambda>c. c \<notin> set punctuation) s"

text \<open>
  \<^verbatim>\<open>.replace(/[^a-z0-9]+/g, "-")\<close>: every maximal run of characters outside
  \<^verbatim>\<open>[a-z0-9]\<close> becomes one hyphen.
\<close>

function hyphenate :: "string \<Rightarrow> string" where
  "hyphenate [] = []"
| "hyphenate (c # cs) =
     (if is_alnum c then c # hyphenate cs
      else CHR ''-'' # hyphenate (dropWhile (\<lambda>x. \<not> is_alnum x) cs))"
  by pat_completeness auto

termination
  by (relation "measure length") (auto simp: length_dropWhile_le le_imp_less_Suc)

text \<open>\<^verbatim>\<open>.replace(/^-+|-+$/g, "")\<close>: the leading and the trailing hyphens are removed.\<close>

definition trim_hyphens :: "string \<Rightarrow> string" where
  "trim_hyphens s = rev (dropWhile (\<lambda>c. c = CHR ''-'') (rev (dropWhile (\<lambda>c. c = CHR ''-'') s)))"

definition slugify ::
  "(string \<Rightarrow> string) \<Rightarrow> (string \<Rightarrow> string) \<Rightarrow> (string \<Rightarrow> string) \<Rightarrow> string \<Rightarrow> string" where
  "slugify normalize_NFD strip_diacritics toLowerCase name' =
     trim_hyphens (hyphenate (remove_punctuation
       (toLowerCase (strip_diacritics (normalize_NFD name')))))"

text \<open>
  The strings that \<^verbatim>\<open>^[a-z0-9]+(-[a-z0-9]+)*$\<close> matches: a non-empty run of
  \<^verbatim>\<open>[a-z0-9]\<close>, followed by any number of groups of a hyphen and such a run.
\<close>

definition alnum_run :: "string \<Rightarrow> bool" where
  "alnum_run w = (w \<noteq> [] \<and> list_all is_alnum w)"

definition matches_slug_pattern :: "string \<Rightarrow> bool" where
  "matches_slug_pattern s =
     (\<exists>w ws. alnum_run w \<and> list_all alnum_run ws \<and> s = w @ concat (map (\<lambda>v. CHR ''-'' # v) ws))"

text \<open>The characters of a slug, and the strings in which every hyphen stands alone between
  its neighbours: a character outside \<^verbatim>\<open>[a-z0-9]\<close> is a hyphen that ends the string or
  is followed by a character of \<^verbatim>\<open>[a-z0-9]\<close>.\<close>

definition slug_char :: "char \<Rightarrow> bool" where
  "slug_char c = (is_alnum c \<or> c = CHR ''-'')"

fun well_hyphenated :: "string \<Rightarrow> bool" where
  "well_hyphenated [] = True"
| "well_hyphenated (c # cs) =
     (if is_alnum c then well_hyphenated cs
      else c = CHR ''-'' \<and> (cs = [] \<or> is_alnum (hd cs)) \<and> well_hyphenated cs)"

text \<open>An ASCII stand-in for \<^verbatim>\<open>toLowerCase\<close>, and the name of a commander.\<close>

definition ascii_lower :: "char \<Rightarrow> char" where
  "ascii_lower c =
     (case map_of (zip ''ABCDEFGHIJKLMNOPQRSTUVWXYZ'' ''abcdefghijklmnopqrstuvwxyz'') c of
        Some l \<Rightarrow> l | None \<Rightarrow> c)"

definition ascii_toLowerCase :: "string \<Rightarrow> string" where
  "ascii_toLowerCase s = map ascii_lower s"

definition atraxa_name :: string where
  "atraxa_name = ''Atraxa, Praetors'' @ [CHR 0x27] @ '' Voice''"

subsection \<open>The rank resolver\<close>




























section \<open>Properties\<close>

subsection \<open>The pairwise guess evaluator\<close>

lemma strict_eq_number: "a \<noteq> NaN \<Longrightarrow> b \<noteq> NaN \<Longrightarrow> strict_eq a b = (a = b)"
  by (cases a; cases b) simp_all

lemma less_than_total:
  "a \<noteq> NaN \<Longrightarrow> b \<noteq> NaN \<Longrightarrow> a \<noteq> b \<Longrightarrow> less_than a b = (\<not> less_than b a)"
  by (cases a; cases b) auto

lemma less_than_irrefl: "\<not> less_than a a"
  by (cases a) simp_all

lemma classify_number:
  assumes "a \<noteq> NaN" and "b \<noteq> NaN"
  shows "classify a b = (if a = b then Tie else if less_than a b then Side Left else Side Right)"
  using assms by (simp add: classify_def strict_eq_number)

lemma makeGuess_loaded:
  assumes "leftMeta s = Some l" and "rightMeta s = Some r"
  shows "makeGuess sd s =
     (let correct = classify (rank_or_infinity l) (rank_or_infinity r)
      in (if correct = Side sd then
            s\<lparr>userGuess := Some sd, streak := streak s + 1,
              highestStreak := max (highestStreak s) (streak s + 1), result := Some correct\<rparr>
          else if correct = Tie then s\<lparr>userGuess := Some sd, result := Some correct\<rparr>
          else s\<lparr>userGuess := Some sd, lastStreak := Some (streak s), streak := 0,
                 result := Some correct\<rparr>))"
  using assms by (simp add: makeGuess_def Let_def max_def)

text \<open>
  C3 as stated fails for the number \<^verbatim>\<open>NaN\<close>: with the ranks 3 (left) and \<^verbatim>\<open>NaN\<close>
  (right) the outcome is \<^verbatim>\<open>'right'\<close>, although the ranks are not equal and the right
  rank is not strictly lower than the left one; the outcome is the same with the two ranks
  exchanged.
\<close>

theorem makeGuess_NaN_counterexample:
  "result (makeGuess Left (example_round (Fin 3) NaN)) = Some (Side Right) \<and>
   \<not> strict_eq (Fin 3) NaN \<and> \<not> less_than NaN (Fin 3) \<and>
   result (makeGuess Left (example_round NaN (Fin 3))) = Some (Side Right)"
  by (simp add: makeGuess_def example_round_def rank_or_infinity_def classify_def Let_def)

text \<open>
  C3, amended. With numeric ranks \<open>a\<close> (left) and \<open>b\<close> (right), neither of them
  \<^verbatim>\<open>NaN\<close>, the outcome is a tie exactly when \<open>a = b\<close> and otherwise the side with the
  strictly lower rank. For all ranks: a guess of the correct side adds one to the streak
  and raises the high-water mark to the new streak when that is larger; a tie leaves
  streak, high-water mark and recorded last streak as they were; a wrong guess records the
  streak in \<open>lastStreak\<close> and resets the streak to 0.
\<close>

theorem makeGuess_numeric_ranks:
  assumes "leftMeta s = Some (CardMeta lname (Some a))"
    and "rightMeta s = Some (CardMeta rname (Some b))"
  shows "(a \<noteq> NaN \<and> b \<noteq> NaN \<longrightarrow>
            result (makeGuess sd s) =
              Some (if a = b then Tie else if less_than a b then Side Left else Side Right) \<and>
            ((result (makeGuess sd s) = Some Tie) = (a = b)) \<and>
            ((result (makeGuess sd s) = Some (Side Left)) = less_than a b) \<and>
            ((result (makeGuess sd s) = Some (Side Right)) = less_than b a)) \<and>
         (result (makeGuess sd s) = Some (Side sd) \<longrightarrow>
            streak (makeGuess sd s) = streak s + 1 \<and>
            highestStreak (makeGuess sd s) = max (highestStreak s) (streak s + 1) \<and>
            lastStreak (makeGuess sd s) = lastStreak s) \<and>
         (result (makeGuess sd s) = Some Tie \<longrightarrow>
            streak (makeGuess sd s) = streak s \<and>
            highestStreak (makeGuess sd s) = highestStreak s \<and>
            lastStreak (makeGuess sd s) = lastStreak s) \<and>
         (result (makeGuess sd s) \<noteq> Some (Side sd) \<and> result (makeGuess sd s) \<noteq> Some Tie \<longrightarrow>
            lastStreak (makeGuess sd s) = Some (streak s) \<and>
            streak (makeGuess sd s) = 0 \<and>
            highestStreak (makeGuess sd s) = highestStreak s)"
proof -
  let ?c = "classify a b"
  have c: "classify (rank_or_infinity (CardMeta lname (Some a)))
             (rank_or_infinity (CardMeta rname (Some b))) = ?c"
    by (simp add: rank_or_infinity_def)
  note mg = makeGuess_loaded [OF assms, of sd, unfolded c]
  have r: "result (makeGuess sd s) = Some ?c"
    by (simp add: mg Let_def)
  have num: "a \<noteq> NaN \<and> b \<noteq> NaN \<longrightarrow>
            result (makeGuess sd s) =
              Some (if a = b then Tie else if less_than a b then Side Left else Side Right) \<and>
            ((result (makeGuess sd s) = Some Tie) = (a = b)) \<and>
            ((result (makeGuess sd s) = Some (Side Left)) = less_than a b) \<and>
            ((result (makeGuess sd s) = Some (Side Right)) = less_than b a)"
  proof
    assume n: "a \<noteq> NaN \<and> b \<noteq> NaN"
    then have cn: "?c = (if a = b then Tie else if less_than a b then Side Left else Side Right)"
      by (simp add: classify_number)
    have t: "a \<noteq> b \<Longrightarrow> less_than a b = (\<not> less_than b a)"
      using n less_than_total [of a b] by blast
    show "result (makeGuess sd s) =
              Some (if a = b then Tie else if less_than a b then Side Left else Side Right) \<and>
            ((result (makeGuess sd s) = Some Tie) = (a = b)) \<and>
            ((result (makeGuess sd s) = Some (Side Left)) = less_than a b) \<and>
            ((result (makeGuess sd s) = Some (Side Right)) = less_than b a)"
      unfolding r cn using t less_than_irrefl [of b] by auto
  qed
  have ok: "result (makeGuess sd s) = Some (Side sd) \<longrightarrow>
           streak (makeGuess sd s) = streak s + 1 \<and>
           highestStreak (makeGuess sd s) = max (highestStreak s) (streak s + 1) \<and>
           lastStreak (makeGuess sd s) = lastStreak s"
    unfolding r by (simp add: mg Let_def)
  have tie: "result (makeGuess sd s) = Some Tie \<longrightarrow>
           streak (makeGuess sd s) = streak s \<and>
           highestStreak (makeGuess sd s) = highestStreak s \<and>
           lastStreak (makeGuess sd s) = lastStreak s"
    unfolding r by (simp add: mg Let_def split: if_splits)
  have wrong: "result (makeGuess sd s) \<noteq> Some (Side sd) \<and> result (makeGuess sd s) \<noteq> Some Tie \<longrightarrow>
           lastStreak (makeGuess sd s) = Some (streak s) \<and>
           streak (makeGuess sd s) = 0 \<and>
           highestStreak (makeGuess sd s) = highestStreak s"
    unfolding r by (simp add: mg Let_def split: if_splits)
  from num ok tie wrong show ?thesis by blast
qed

text \<open>
  The two cases the specification lists: ranks 5 and 3 make \<^verbatim>\<open>'right'\<close> the correct
  answer (so a guess of the left card is wrong and resets a streak of 2, and a guess of
  the right card raises it to 3), and ranks 4 and 4 are a tie that leaves the streak at 2.
\<close>

theorem makeGuess_numeric_ranks_witness:
  "result (makeGuess Left (example_round (Fin 5) (Fin 3))) = Some (Side Right) \<and>
   streak (makeGuess Left (example_round (Fin 5) (Fin 3))) = 0 \<and>
   lastStreak (makeGuess Left (example_round (Fin 5) (Fin 3))) = Some 2 \<and>
   result (makeGuess Right (example_round (Fin 5) (Fin 3))) = Some (Side Right) \<and>
   streak (makeGuess Right (example_round (Fin 5) (Fin 3))) = 3 \<and>
   highestStreak (makeGuess Right (example_round (Fin 5) (Fin 3))) = 4 \<and>
   result (makeGuess Left (example_round (Fin 4) (Fin 4))) = Some Tie \<and>
   streak (makeGuess Left (example_round (Fin 4) (Fin 4))) = 2 \<and>
   result (makeGuess Left (example_round (Fin 7) PosInf)) = Some (Side Left)"
  using makeGuess_numeric_ranks [of "example_round (Fin 5) (Fin 3)" "''Atraxa''" "Fin 5"
      "''Krenko''" "Fin 3" Left]
    makeGuess_numeric_ranks [of "example_round (Fin 5) (Fin 3)" "''Atraxa''" "Fin 5"
      "''Krenko''" "Fin 3" Right]
    makeGuess_numeric_ranks [of "example_round (Fin 4) (Fin 4)" "''Atraxa''" "Fin 4"
      "''Krenko''" "Fin 4" Left]
    makeGuess_numeric_ranks [of "example_round (Fin 7) PosInf" "''Atraxa''" "Fin 7"
      "''Krenko''" PosInf Left]
  by (simp add: example_round_def)

text \<open>
  C10 as stated fails for the numbers \<^verbatim>\<open>Infinity\<close> and \<^verbatim>\<open>NaN\<close>: a left rank
  \<^verbatim>\<open>Infinity\<close> against a missing right rank is a tie, and a left rank \<^verbatim>\<open>NaN\<close> against
  a missing right rank makes \<^verbatim>\<open>'right'\<close>, the side without a numeric rank, the answer.
\<close>

theorem makeGuess_missing_rank_counterexample:
  "result (makeGuess Left (unranked_round (Some PosInf) None)) = Some Tie \<and>
   result (makeGuess Left (unranked_round (Some NaN) None)) = Some (Side Right) \<and>
   meta_rank (CardMeta ''Atraxa'' (Some PosInf)) \<noteq> None \<and>
   meta_rank (CardMeta ''Atraxa'' (Some NaN)) \<noteq> None \<and>
   meta_rank (CardMeta ''Krenko'' None) = None"
  by (simp add: makeGuess_def unranked_round_def rank_or_infinity_def classify_def Let_def)

text \<open>
  C10, amended. A rank that is not a number counts as \<^verbatim>\<open>+Infinity\<close>. When neither
  candidate has a numeric rank the outcome is a tie and the streak is unchanged. When
  exactly one candidate has a numeric rank and that rank is below \<^verbatim>\<open>+Infinity\<close> (so it is
  neither \<^verbatim>\<open>+Infinity\<close> nor \<^verbatim>\<open>NaN\<close>), that side is the correct answer; when it is
  \<^verbatim>\<open>+Infinity\<close>, the outcome is a tie. All of this for either guessed side.
\<close>

theorem makeGuess_missing_rank:
  assumes "leftMeta s = Some l" and "rightMeta s = Some r"
  shows "(meta_rank l = None \<longrightarrow> rank_or_infinity l = PosInf) \<and>
         (meta_rank r = None \<longrightarrow> rank_or_infinity r = PosInf) \<and>
         (meta_rank l = None \<and> meta_rank r = None \<longrightarrow>
            result (makeGuess sd s) = Some Tie \<and> streak (makeGuess sd s) = streak s) \<and>
         (meta_rank l = None \<and> (\<exists>n. meta_rank r = Some n \<and> less_than n PosInf) \<longrightarrow>
            result (makeGuess sd s) = Some (Side Right)) \<and>
         ((\<exists>n. meta_rank l = Some n \<and> less_than n PosInf) \<and> meta_rank r = None \<longrightarrow>
            result (makeGuess sd s) = Some (Side Left)) \<and>
         ((meta_rank l = None \<and> meta_rank r = Some PosInf) \<or>
          (meta_rank l = Some PosInf \<and> meta_rank r = None) \<longrightarrow>
            result (makeGuess sd s) = Some Tie \<and> streak (makeGuess sd s) = streak s)"
proof -
  note mg = makeGuess_loaded [OF assms, of sd]
  have both: "meta_rank l = None \<and> meta_rank r = None \<longrightarrow>
            result (makeGuess sd s) = Some Tie \<and> streak (makeGuess sd s) = streak s"
    by (simp add: mg Let_def rank_or_infinity_def classify_def)
  have nlt: "\<And>n. less_than n PosInf \<Longrightarrow> \<not> strict_eq PosInf n \<and> \<not> less_than PosInf n \<and>
      \<not> strict_eq n PosInf"
    subgoal for n by (cases n) simp_all
    done
  have right: "meta_rank l = None \<and> (\<exists>n. meta_rank r = Some n \<and> less_than n PosInf) \<longrightarrow>
            result (makeGuess sd s) = Some (Side Right)"
    using nlt by (auto simp: mg Let_def rank_or_infinity_def classify_def)
  have left: "(\<exists>n. meta_rank l = Some n \<and> less_than n PosInf) \<and> meta_rank r = None \<longrightarrow>
            result (makeGuess sd s) = Some (Side Left)"
    using nlt by (auto simp: mg Let_def rank_or_infinity_def classify_def)
  have inf: "(meta_rank l = None \<and> meta_rank r = Some PosInf) \<or>
          (meta_rank l = Some PosInf \<and> meta_rank r = None) \<longrightarrow>
            result (makeGuess sd s) = Some Tie \<and> streak (makeGuess sd s) = streak s"
    by (auto simp: mg Let_def rank_or_infinity_def classify_def)
  from both right left inf show ?thesis
    by (simp add: rank_or_infinity_def)
qed

theorem makeGuess_missing_rank_witness:
  "result (makeGuess Left (unranked_round None None)) = Some Tie \<and>
   streak (makeGuess Left (unranked_round None None)) = 2 \<and>
   result (makeGuess Right (unranked_round None None)) = Some Tie \<and>
   result (makeGuess Left (unranked_round None (Some (Fin 900)))) = Some (Side Right) \<and>
   result (makeGuess Right (unranked_round None (Some (Fin 900)))) = Some (Side Right) \<and>
   result (makeGuess Left (unranked_round (Some (Fin 900)) None)) = Some (Side Left) \<and>
   result (makeGuess Right (unranked_round (Some (Fin 900)) None)) = Some (Side Left) \<and>
   result (makeGuess Right (unranked_round None (Some PosInf))) = Some Tie"
  using makeGuess_missing_rank [of "unranked_round None None" _ _ Left]
    makeGuess_missing_rank [of "unranked_round None None" _ _ Right]
    makeGuess_missing_rank [of "unranked_round None (Some (Fin 900))" _ _ Left]
    makeGuess_missing_rank [of "unranked_round None (Some (Fin 900))" _ _ Right]
    makeGuess_missing_rank [of "unranked_round (Some (Fin 900)) None" _ _ Left]
    makeGuess_missing_rank [of "unranked_round (Some (Fin 900)) None" _ _ Right]
    makeGuess_missing_rank [of "unranked_round None (Some PosInf)" _ _ Right]
  by (simp add: unranked_round_def)

subsection \<open>Drawing two distinct candidates\<close>

lemma random_index_less:
  assumes "0 \<le> u" and "u < 1" and "0 < n"
  shows "random_index u n < n"
proof -
  have "u * real n < real n" using assms by simp
  then have "\<lfloor>u * real n\<rfloor> < int n" by (simp add: floor_less_iff)
  moreover have "0 \<le> \<lfloor>u * real n\<rfloor>" using assms by simp
  ultimately show ?thesis by (simp add: random_index_def nat_less_iff)
qed

lemma picked_indices_inj: "inj_on picked_indices (draws n)"
  by (auto simp: inj_on_def picked_indices_def draws_def split: if_splits)

lemma picked_indices_image: "picked_indices ` draws n = ordered_pairs n"
proof (intro set_eqI iffI)
  fix p assume "p \<in> picked_indices ` draws n"
  then show "p \<in> ordered_pairs n"
    by (auto simp: picked_indices_def draws_def ordered_pairs_def split: if_splits)
next
  fix p assume p: "p \<in> ordered_pairs n"
  obtain i j where ij: "p = (i, j)" by (cases p)
  with p have b: "i < n" "j < n" "i \<noteq> j" by (auto simp: ordered_pairs_def)
  let ?d = "(i, if i < j then j - 1 else j)"
  have "?d \<in> draws n" using b by (auto simp: draws_def)
  moreover have "picked_indices ?d = p" using b ij by (auto simp: picked_indices_def)
  ultimately show "p \<in> picked_indices ` draws n" by (metis imageI)
qed

lemma picked_indices_bij: "bij_betw picked_indices (draws n) (ordered_pairs n)"
  by (simp add: bij_betw_def picked_indices_inj picked_indices_image)

lemma preimages_unordered:
  assumes "i < n" "j < n" "i \<noteq> j"
  shows "card {d \<in> draws n. unordered (picked_indices d) = {i, j}} = 2"
proof -
  have "{p \<in> ordered_pairs n. unordered p = {i, j}} = {(i, j), (j, i)}"
    using assms by (auto simp: ordered_pairs_def unordered_def doubleton_eq_iff)
  then have c: "card {p \<in> ordered_pairs n. unordered p = {i, j}} = 2"
    using assms by simp
  let ?A = "{d \<in> draws n. unordered (picked_indices d) = {i, j}}"
  have "picked_indices ` ?A = {p \<in> picked_indices ` draws n. unordered p = {i, j}}"
    by blast
  then have img: "picked_indices ` ?A = {p \<in> ordered_pairs n. unordered p = {i, j}}"
    by (simp only: picked_indices_image)
  have "inj_on picked_indices ?A"
    by (rule inj_on_subset [OF picked_indices_inj [of n]]) blast
  then have "card (picked_indices ` ?A) = card ?A"
    by (rule card_image)
  with img c show ?thesis by simp
qed

lemma pickTwoDistinct_in_range:
  assumes n: "2 \<le> length arr" and u: "0 \<le> u" "u < 1" and v: "0 \<le> v" "v < 1"
  shows "(random_index u (length arr), random_index v (length arr - 1)) \<in> draws (length arr)"
    and "pickTwoDistinct arr u v =
           Some (Some (arr ! fst (picked_indices (random_index u (length arr), random_index v (length arr - 1)))),
                 Some (arr ! snd (picked_indices (random_index u (length arr), random_index v (length arr - 1)))))"
proof -
  have a: "random_index u (length arr) < length arr"
    using n u by (intro random_index_less) auto
  have b: "random_index v (length arr - 1) < length arr - 1"
    using n v by (intro random_index_less) auto
  show "(random_index u (length arr), random_index v (length arr - 1)) \<in> draws (length arr)"
    using a b by (simp add: draws_def)
  show "pickTwoDistinct arr u v =
           Some (Some (arr ! fst (picked_indices (random_index u (length arr), random_index v (length arr - 1)))),
                 Some (arr ! snd (picked_indices (random_index u (length arr), random_index v (length arr - 1)))))"
    using n a b by (auto simp: pickTwoDistinct_def picked_indices_def element_def Let_def)
qed

text \<open>
  C2. An array of fewer than two elements gives \<^verbatim>\<open>null\<close>. For an array of length
  \<open>n \<ge> 2\<close> and draws \<open>0 \<le> u, v < 1\<close>, the floored draws \<open>(a, b)\<close> lie in
  \<open>[0, n) \<times> [0, n - 1)\<close> and the result is the pair of the elements at the two indices
  \<open>picked_indices (a, b)\<close>, which are in range and distinct. \<open>picked_indices\<close> is a
  bijection from the pairs of draws onto the ordered pairs of distinct indices, so every
  unordered pair of distinct indices is the outcome of exactly two of the \<open>n (n - 1)\<close>
  equally likely pairs of draws.
\<close>

theorem pickTwoDistinct_distinct_uniform:
  "(length arr < 2 \<longrightarrow> pickTwoDistinct arr u v = None) \<and>
   (2 \<le> length arr \<and> 0 \<le> u \<and> u < 1 \<and> 0 \<le> v \<and> v < 1 \<longrightarrow>
      (random_index u (length arr), random_index v (length arr - 1)) \<in> draws (length arr) \<and>
      (\<exists>i j. picked_indices (random_index u (length arr), random_index v (length arr - 1)) = (i, j) \<and>
             i < length arr \<and> j < length arr \<and> i \<noteq> j \<and>
             pickTwoDistinct arr u v = Some (Some (arr ! i), Some (arr ! j)))) \<and>
   bij_betw picked_indices (draws (length arr)) (ordered_pairs (length arr)) \<and>
   (\<forall>i j. i < length arr \<and> j < length arr \<and> i \<noteq> j \<longrightarrow>
      card {d \<in> draws (length arr). unordered (picked_indices d) = {i, j}} = 2)"
proof (intro conjI impI allI)
  assume "length arr < 2"
  then show "pickTwoDistinct arr u v = None"
    by (simp add: pickTwoDistinct_def)
next
  assume h: "2 \<le> length arr \<and> 0 \<le> u \<and> u < 1 \<and> 0 \<le> v \<and> v < 1"
  then show "(random_index u (length arr), random_index v (length arr - 1)) \<in> draws (length arr)"
    by (intro pickTwoDistinct_in_range) auto
next
  assume h: "2 \<le> length arr \<and> 0 \<le> u \<and> u < 1 \<and> 0 \<le> v \<and> v < 1"
  let ?d = "(random_index u (length arr), random_index v (length arr - 1))"
  obtain i j where ij: "picked_indices ?d = (i, j)"
    by (cases "picked_indices ?d")
  have "?d \<in> draws (length arr)"
    using h by (intro pickTwoDistinct_in_range) auto
  then have "picked_indices ?d \<in> ordered_pairs (length arr)"
    using picked_indices_image [of "length arr"] by blast
  then have r: "i < length arr" "j < length arr" "i \<noteq> j"
    using ij by (auto simp: ordered_pairs_def)
  have "pickTwoDistinct arr u v =
          Some (Some (arr ! fst (picked_indices ?d)), Some (arr ! snd (picked_indices ?d)))"
    using h by (intro pickTwoDistinct_in_range) auto
  then have "pickTwoDistinct arr u v = Some (Some (arr ! i), Some (arr ! j))"
    by (simp only: ij fst_conv snd_conv)
  with ij r show "\<exists>i j. picked_indices ?d = (i, j) \<and> i < length arr \<and> j < length arr \<and> i \<noteq> j \<and>
             pickTwoDistinct arr u v = Some (Some (arr ! i), Some (arr ! j))"
    by blast
next
  show "bij_betw picked_indices (draws (length arr)) (ordered_pairs (length arr))"
    by (rule picked_indices_bij)
next
  fix i j assume "i < length arr \<and> j < length arr \<and> i \<noteq> j"
  then show "card {d \<in> draws (length arr). unordered (picked_indices d) = {i, j}} = 2"
    by (intro preimages_unordered) auto
qed

theorem pickTwoDistinct_distinct_uniform_witness:
  "pickTwoDistinct [10, 20, 30 :: nat] (1 / 2) (3 / 4) = Some (Some 20, Some 30) \<and>
   picked_indices (random_index (1 / 2) 3, random_index (3 / 4) 2) = (1, 2) \<and>
   pickTwoDistinct [10 :: nat] (1 / 2) (3 / 4) = None \<and>
   card {d \<in> draws 3. unordered (picked_indices d) = {1, 2}} = 2"
proof -
  note t = pickTwoDistinct_distinct_uniform [of "[10, 20, 30 :: nat]" "1 / 2" "3 / 4",
      THEN conjunct2, THEN conjunct2, THEN conjunct2, rule_format, of 1 2]
  have "card {d \<in> draws 3. unordered (picked_indices d) = {1, 2}} = 2"
    using t by (simp add: numeral_3_eq_3)
  moreover have "pickTwoDistinct [10 :: nat] (1 / 2) (3 / 4) = None"
    using pickTwoDistinct_distinct_uniform [of "[10 :: nat]" "1 / 2" "3 / 4"] by simp
  moreover have "pickTwoDistinct [10, 20, 30 :: nat] (1 / 2) (3 / 4) = Some (Some 20, Some 30)"
    by (simp add: pickTwoDistinct_def random_index_def element_def)
  moreover have "picked_indices (random_index (1 / 2) 3, random_index (3 / 4) 2) = (1, 2)"
    by (simp add: picked_indices_def random_index_def)
  ultimately show ?thesis by blast
qed

subsection \<open>The commander filter\<close>

lemma keeps_iff:
  assumes "Date_parse [] = None"
  shows "keeps Date_parse now s c =
     (\<not> excluded_partner s c \<and> \<not> excluded_unreleased Date_parse now s c \<and>
      \<not> excluded_illegal_listed s c)"
proof (cases "released_at c")
  case None
  then show ?thesis
    by (auto simp: keeps_def excluded_partner_def excluded_unreleased_def release_date_def
        excluded_illegal_listed_def commander_legality_def split: option.splits)
next
  case (Some d)
  show ?thesis
  proof (cases "d = []")
    case True
    with Some assms show ?thesis
      by (auto simp: keeps_def excluded_partner_def excluded_unreleased_def release_date_def
          excluded_illegal_listed_def commander_legality_def split: option.splits)
  next
    case False
    with Some show ?thesis
      by (auto simp: keeps_def excluded_partner_def excluded_unreleased_def release_date_def
          excluded_illegal_listed_def commander_legality_def split: option.splits)
  qed
qed

lemma excluded_illegal_listed_eq:
  "legalities c \<noteq> None \<Longrightarrow> excluded_illegal_listed s c = excluded_illegal s c"
  by (simp add: excluded_illegal_listed_def excluded_illegal_def)

text \<open>
  C8 as stated fails: with the legality toggle off, a card that has no \<^verbatim>\<open>legalities\<close>
  object has no commander-format legality, so the stated filter drops it, while the code
  keeps it.
\<close>

theorem getFilteredCommanders_counterexample:
  "getFilteredCommanders example_dates 1700000000000 [plain_card ''Unlisted'']
     (initial_state True True False) = [plain_card ''Unlisted''] \<and>
   spec_filter example_dates 1700000000000 [plain_card ''Unlisted'']
     (initial_state True True False) = []"
  by (simp add: getFilteredCommanders_def keeps_def spec_filter_def excluded_illegal_def
      commander_legality_def plain_card_def initial_state_def)

text \<open>
  C8, amended. For a date parser that rejects the empty string, the filter returns exactly
  the cards of the pool for which none of the three conditions holds -- the partner toggle
  is off and the keywords contain \<^verbatim>\<open>"Partner"\<close>; the unreleased toggle is off and the
  release date is after the evaluation time; the legality toggle is off and the card has a
  \<^verbatim>\<open>legalities\<close> object whose commander entry is not exactly \<^verbatim>\<open>"legal"\<close> -- in the
  order of the pool (the result is a subsequence of it). When every card of the pool has
  a \<^verbatim>\<open>legalities\<close> object, this is the filter as the specification states it.
\<close>

theorem getFilteredCommanders_exclusions:
  assumes "Date_parse [] = None"
  shows "getFilteredCommanders Date_parse now commanders s =
           filter (\<lambda>c. \<not> excluded_partner s c \<and> \<not> excluded_unreleased Date_parse now s c \<and>
                       \<not> excluded_illegal_listed s c) commanders \<and>
         (\<forall>c. c \<in> set (getFilteredCommanders Date_parse now commanders s) \<longleftrightarrow>
              c \<in> set commanders \<and> \<not> excluded_partner s c \<and>
              \<not> excluded_unreleased Date_parse now s c \<and> \<not> excluded_illegal_listed s c) \<and>
         subseq (getFilteredCommanders Date_parse now commanders s) commanders \<and>
         ((\<forall>c \<in> set commanders. legalities c \<noteq> None) \<longrightarrow>
            getFilteredCommanders Date_parse now commanders s =
              spec_filter Date_parse now commanders s)"
proof -
  have k: "keeps Date_parse now s =
      (\<lambda>c. \<not> excluded_partner s c \<and> \<not> excluded_unreleased Date_parse now s c \<and>
                       \<not> excluded_illegal_listed s c)"
    using keeps_iff [of Date_parse, OF assms] by blast
  have eq: "getFilteredCommanders Date_parse now commanders s =
           filter (\<lambda>c. \<not> excluded_partner s c \<and> \<not> excluded_unreleased Date_parse now s c \<and>
                       \<not> excluded_illegal_listed s c) commanders"
    unfolding getFilteredCommanders_def k ..
  have mem: "\<forall>c. c \<in> set (getFilteredCommanders Date_parse now commanders s) \<longleftrightarrow>
              c \<in> set commanders \<and> \<not> excluded_partner s c \<and>
              \<not> excluded_unreleased Date_parse now s c \<and> \<not> excluded_illegal_listed s c"
    unfolding eq by auto
  have sub: "subseq (getFilteredCommanders Date_parse now commanders s) commanders"
    unfolding getFilteredCommanders_def by (rule subseq_filter_left)
  have spec: "(\<forall>c \<in> set commanders. legalities c \<noteq> None) \<longrightarrow>
            getFilteredCommanders Date_parse now commanders s =
              spec_filter Date_parse now commanders s"
    unfolding eq spec_filter_def
    by (auto intro!: filter_cong simp: excluded_illegal_listed_eq)
  from eq mem sub spec show ?thesis by blast
qed

theorem getFilteredCommanders_exclusions_witness:
  "example_dates [] = None \<and>
   map name (getFilteredCommanders example_dates 1700000000000 example_pool
     (initial_state False False False)) = [''Atraxa'', ''Krenko''] \<and>
   map name (getFilteredCommanders example_dates 1700000000000 example_pool
     (initial_state True True True)) = [''Tymna'', ''Atraxa'', ''Future'', ''Golos'', ''Krenko''] \<and>
   subseq (getFilteredCommanders example_dates 1700000000000 example_pool
     (initial_state False False False)) example_pool \<and>
   getFilteredCommanders example_dates 1700000000000 example_pool (initial_state False False False) =
     spec_filter example_dates 1700000000000 example_pool (initial_state False False False)"
proof -
  have d: "example_dates [] = None"
    by (simp add: example_dates_def)
  have l: "\<forall>c \<in> set example_pool. legalities c \<noteq> None"
    by (simp add: example_pool_def plain_card_def)
  note t = getFilteredCommanders_exclusions [of example_dates 1700000000000 example_pool
      "initial_state False False False", OF d]
  have a: "map name (getFilteredCommanders example_dates 1700000000000 example_pool
     (initial_state False False False)) = [''Atraxa'', ''Krenko'']"
    by (simp add: getFilteredCommanders_def keeps_def example_pool_def plain_card_def
        initial_state_def example_dates_def)
  have b: "map name (getFilteredCommanders example_dates 1700000000000 example_pool
     (initial_state True True True)) = [''Tymna'', ''Atraxa'', ''Future'', ''Golos'', ''Krenko'']"
    by (simp add: getFilteredCommanders_def keeps_def example_pool_def plain_card_def
        initial_state_def example_dates_def)
  from d a b t l show ?thesis by blast
qed

text \<open>
  The loop is left after at most ten iterations, and before the tenth only with a pair
  that passes its test.
\<close>

subsection \<open>Drawing a pair\<close>

lemma draw_loop_result:
  "draw_loop filtered rnd fetchRank a lr rr = Inr (l, r, lR, rR, n) \<Longrightarrow> a < 10 \<Longrightarrow>
   a < n \<and> n \<le> 10 \<and> (invalid_pair l r lR rR \<longrightarrow> n = 10)"
proof (induction filtered rnd fetchRank a lr rr rule: draw_loop.induct)
  case (1 filtered rnd fetchRank attempts leftRank rightRank)
  show ?case
  proof (cases "attempt filtered rnd fetchRank attempts leftRank rightRank")
    case (Inl e)
    with "1.prems"(1) show ?thesis
      by (subst (asm) draw_loop.simps) simp
  next
    case (Inr q)
    obtain left right lRank rRank where q: "q = (left, right, lRank, rRank)"
      by (cases q)
    show ?thesis
    proof (cases "invalid_pair left right lRank rRank \<and> attempts + 1 < 10")
      case True
      with "1.prems"(1) Inr q
      have "draw_loop filtered rnd fetchRank (attempts + 1) lRank rRank = Inr (l, r, lR, rR, n)"
        by (subst (asm) draw_loop.simps) simp
      with "1.IH" [OF Inr q [symmetric] refl refl True] True
      show ?thesis by simp
    next
      case False
      with "1.prems" Inr q show ?thesis
        by (subst (asm) draw_loop.simps) auto
    qed
  qed
qed

text \<open>
  Whatever the pool, the draws and the resolver do, \<^verbatim>\<open>loadNewPair\<close> ends with both
  sides set, either both to the same error or both to candidates with different names and
  numeric ranks, and with \<^verbatim>\<open>loadingPair\<close> cleared.
\<close>

lemma loadNewPair_settles:
  "loadingPair (loadNewPair Date_parse now commanders rnd fetchRank s) = False \<and>
   result (loadNewPair Date_parse now commanders rnd fetchRank s) = None \<and>
   ((\<exists>e. leftMeta (loadNewPair Date_parse now commanders rnd fetchRank s) = Some (ErrorMeta e) \<and>
         rightMeta (loadNewPair Date_parse now commanders rnd fetchRank s) = Some (ErrorMeta e)) \<or>
    (\<exists>lname rname a b.
         leftMeta (loadNewPair Date_parse now commanders rnd fetchRank s) =
           Some (CardMeta lname (Some a)) \<and>
         rightMeta (loadNewPair Date_parse now commanders rnd fetchRank s) =
           Some (CardMeta rname (Some b)) \<and> lname \<noteq> rname))"
  unfolding loadNewPair_def both_sides_def Let_def
  by (auto split: sum.splits prod.splits)

lemma draw_loop_stuck:
  "draw_loop stuck_pool (\<lambda>k. 0) zero_rank 0 None None =
     Inr (plain_card ''Atraxa'', plain_card ''Krenko'', Some (Fin 0), Some (Fin 25), 10)"
  by (simp add: draw_loop.simps attempt_def pickTwoDistinct_def random_index_def element_def
      stuck_pool_def plain_card_def zero_rank_def invalid_pair_def not_positive_def at_most_def)

text \<open>On that pool the loop runs its ten iterations and ends with a pair it has rejected.\<close>

theorem draw_loop_result_witness:
  "draw_loop stuck_pool (\<lambda>k. 0) zero_rank 0 None None =
     Inr (plain_card ''Atraxa'', plain_card ''Krenko'', Some (Fin 0), Some (Fin 25), 10) \<and>
   invalid_pair (plain_card ''Atraxa'') (plain_card ''Krenko'') (Some (Fin 0)) (Some (Fin 25))"
  using draw_loop_result [OF draw_loop_stuck] draw_loop_stuck
  by (simp add: invalid_pair_def not_positive_def at_most_def)

text \<open>
  C5 fails on the code. A pool of two cards whose ranks resolve to 0 and 25 on every
  attempt: the loop rejects the pair ten times, is left because \<^verbatim>\<open>attempts\<close> has reached
  10, and the test after the loop, which asks only whether the ranks are numbers, commits
  the pair with the rank 0.
\<close>

theorem loadNewPair_commits_rank_zero:
  "leftMeta (loadNewPair example_dates 1700000000000 stuck_pool (\<lambda>k. 0) zero_rank
      (initial_state True True True)) = Some (CardMeta ''Atraxa'' (Some (Fin 0))) \<and>
   rightMeta (loadNewPair example_dates 1700000000000 stuck_pool (\<lambda>k. 0) zero_rank
      (initial_state True True True)) = Some (CardMeta ''Krenko'' (Some (Fin 25))) \<and>
   not_positive (Some (Fin 0))"
proof -
  have f: "getFilteredCommanders example_dates 1700000000000 stuck_pool
      (initial_state True True True) = stuck_pool"
    by (simp add: getFilteredCommanders_def keeps_def initial_state_def)
  have n: "\<not> length stuck_pool < 2"
    by (simp add: stuck_pool_def)
  show ?thesis
    by (simp add: loadNewPair_def Let_def f n draw_loop_stuck both_sides_def plain_card_def
        not_positive_def at_most_def)
qed

text \<open>
  The test of the loop also lets \<^verbatim>\<open>NaN\<close> pass, which is a number and not at most 0:
  the pair is committed after the first attempt.
\<close>

lemma loadNewPair_commits_NaN:
  "leftMeta (loadNewPair example_dates 1700000000000 stuck_pool (\<lambda>k. 0) nan_rank
      (initial_state True True True)) = Some (CardMeta ''Atraxa'' (Some NaN)) \<and>
   draw_loop stuck_pool (\<lambda>k. 0) nan_rank 0 None None =
     Inr (plain_card ''Atraxa'', plain_card ''Krenko'', Some NaN, Some (Fin 25), 1)"
proof -
  have f: "getFilteredCommanders example_dates 1700000000000 stuck_pool
      (initial_state True True True) = stuck_pool"
    by (simp add: getFilteredCommanders_def keeps_def initial_state_def)
  have n: "\<not> length stuck_pool < 2"
    by (simp add: stuck_pool_def)
  have d: "draw_loop stuck_pool (\<lambda>k. 0) nan_rank 0 None None =
     Inr (plain_card ''Atraxa'', plain_card ''Krenko'', Some NaN, Some (Fin 25), 1)"
    by (simp add: draw_loop.simps attempt_def pickTwoDistinct_def random_index_def element_def
      stuck_pool_def plain_card_def nan_rank_def invalid_pair_def not_positive_def at_most_def)
  show ?thesis
    by (simp add: loadNewPair_def Let_def f n d both_sides_def plain_card_def)
qed

subsection \<open>The daily guess evaluator\<close>

lemma positions_all_iff_sorted:
  fixes xs :: "real list"
  shows "(\<forall>i < length xs. xs ! i = sort xs ! i) = sorted xs"
proof
  assume "\<forall>i < length xs. xs ! i = sort xs ! i"
  then have "xs = sort xs"
    by (intro nth_equalityI) auto
  then show "sorted xs"
    by (metis sorted_sort)
next
  assume "sorted xs"
  then have "sort xs = xs" by (simp add: sorted_sort_id)
  then show "\<forall>i < length xs. xs ! i = sort xs ! i" by simp
qed

lemma handleGuess_fields:
  "correctPositions (handleGuess s) =
     map (\<lambda>i. getRanks (order s) ! i = sort (getRanks (order s)) ! i) [0..<length (order s)]"
  "isSolved (handleGuess s) =
     (isSolved s \<or> list_all (\<lambda>b. b) (correctPositions (handleGuess s)))"
  "guessHistory (handleGuess s) =
     guessHistory s @ [\<lparr>correctness = correctPositions (handleGuess s),
                        ids = join '','' (map card_id (order s))\<rparr>]"
  by (simp_all add: handleGuess_def Let_def getRanks_def)

text \<open>
  C4. \<^verbatim>\<open>handleGuess\<close> compares the ranks of the player's order position by position
  with their ascending sort (a sorted permutation of them): position \<open>i\<close> is marked correct
  exactly when the two agree at \<open>i\<close>. The round is solved afterwards exactly when it was
  solved before or every position is correct, which is the case exactly when the player's
  ranks are in ascending order. The guess is appended to the history.
\<close>

theorem handleGuess_positions:
  "length (correctPositions (handleGuess s)) = length (order s) \<and>
   (\<forall>i < length (order s).
      correctPositions (handleGuess s) ! i =
        (getRanks (order s) ! i = sort (getRanks (order s)) ! i)) \<and>
   sorted (sort (getRanks (order s))) \<and>
   mset (sort (getRanks (order s))) = mset (getRanks (order s)) \<and>
   isSolved (handleGuess s) =
     (isSolved s \<or> (\<forall>i < length (order s). correctPositions (handleGuess s) ! i)) \<and>
   (\<forall>i < length (order s). correctPositions (handleGuess s) ! i) = sorted (getRanks (order s)) \<and>
   guessHistory (handleGuess s) =
     guessHistory s @ [\<lparr>correctness = correctPositions (handleGuess s),
                        ids = join '','' (map card_id (order s))\<rparr>]"
proof -
  let ?r = "getRanks (order s)"
  have n: "length ?r = length (order s)"
    by (simp add: getRanks_def)
  have len: "length (correctPositions (handleGuess s)) = length (order s)"
    by (simp add: handleGuess_fields(1))
  have pos: "\<forall>i < length (order s).
      correctPositions (handleGuess s) ! i = (?r ! i = sort ?r ! i)"
    by (simp add: handleGuess_fields(1))
  have all: "list_all (\<lambda>b. b) (correctPositions (handleGuess s)) =
      (\<forall>i < length (order s). correctPositions (handleGuess s) ! i)"
    using len by (simp add: list_all_length)
  have solved: "isSolved (handleGuess s) =
     (isSolved s \<or> (\<forall>i < length (order s). correctPositions (handleGuess s) ! i))"
    using handleGuess_fields(2) [of s] all by simp
  have srt: "(\<forall>i < length (order s). correctPositions (handleGuess s) ! i) = sorted ?r"
    using positions_all_iff_sorted [of ?r] pos n by simp
  show ?thesis
    using len pos solved srt handleGuess_fields(3) [of s] by simp
qed

text \<open>
  The two cases of the specification: the order with ranks 10, 3, 7 is wrong at every
  position; the order with ranks 3, 7, 10 is right at every position and solves the round.
\<close>

theorem handleGuess_positions_witness:
  "correctPositions (handleGuess (new_round
      [ranked_card ''A'' ''a'' 10, ranked_card ''B'' ''b'' 3, ranked_card ''C'' ''c'' 7])) =
     [False, False, False] \<and>
   isSolved (handleGuess (new_round
      [ranked_card ''A'' ''a'' 10, ranked_card ''B'' ''b'' 3, ranked_card ''C'' ''c'' 7])) = False \<and>
   correctPositions (handleGuess (new_round
      [ranked_card ''B'' ''b'' 3, ranked_card ''C'' ''c'' 7, ranked_card ''A'' ''a'' 10])) =
     [True, True, True] \<and>
   isSolved (handleGuess (new_round
      [ranked_card ''B'' ''b'' 3, ranked_card ''C'' ''c'' 7, ranked_card ''A'' ''a'' 10])) = True"
  using handleGuess_positions [of "new_round
      [ranked_card ''A'' ''a'' 10, ranked_card ''B'' ''b'' 3, ranked_card ''C'' ''c'' 7]"]
    handleGuess_positions [of "new_round
      [ranked_card ''B'' ''b'' 3, ranked_card ''C'' ''c'' 7, ranked_card ''A'' ''a'' 10]"]
  by (simp add: handleGuess_def getRanks_def new_round_def ranked_card_def plain_card_def
      Let_def upt_rec)

subsection \<open>Resubmitting an order\<close>

lemma join_Cons: "join sep (x # xs) = (if xs = [] then x else x @ sep @ join sep xs)"
  by (cases xs) simp_all

lemma split_at_separator:
  assumes "c \<notin> set x" and "c \<notin> set y" and "x @ c # r = y @ c # r'"
  shows "x = y \<and> r = r'"
proof -
  have "takeWhile (\<lambda>a. a \<noteq> c) (x @ c # r) = x"
    using assms(1) by (auto simp: takeWhile_tail)
  moreover have "takeWhile (\<lambda>a. a \<noteq> c) (y @ c # r') = y"
    using assms(2) by (auto simp: takeWhile_tail)
  ultimately have "x = y" using assms(3) by simp
  with assms(3) show ?thesis by simp
qed

lemma join_comma_inj:
  assumes "length xs = length ys"
    and "\<forall>x \<in> set xs. CHR '','' \<notin> set x" and "\<forall>y \<in> set ys. CHR '','' \<notin> set y"
    and "join '','' xs = join '','' ys"
  shows "xs = ys"
  using assms
proof (induction xs ys rule: list_induct2)
  case Nil
  show ?case by simp
next
  case (Cons x xs y ys)
  show ?case
  proof (cases "xs = []")
    case True
    with Cons.hyps have "ys = []" by simp
    with True Cons.prems(3) show ?thesis by simp
  next
    case False
    with Cons.hyps have ne: "ys \<noteq> []" by auto
    from Cons.prems(3) False ne
    have "x @ CHR '','' # join '','' xs = y @ CHR '','' # join '','' ys"
      by (simp add: join_Cons)
    then have "x = y \<and> join '','' xs = join '','' ys"
      using Cons.prems(1,2) by (intro split_at_separator [of "CHR '',''"]) auto
    with Cons.IH Cons.prems(1,2) show ?thesis by simp
  qed
qed

lemma guess_disabled_after:
  "guess_disabled (setOrder cur (handleGuess s)) =
     (\<not> isSolved (handleGuess s) \<and>
      join '','' (map card_id cur) = join '','' (map card_id (order s)))"
  by (auto simp: guess_disabled_def setOrder_def handleGuess_def Let_def)

text \<open>
  C9. The ids of the cards are those of the data set, Scryfall UUIDs (hexadecimal digits
  and hyphens): no id contains a comma. The drag handlers only rearrange the cards, so the
  current order has as many cards as the guessed one. Then, after a guess, the button is
  disabled exactly when the round is unsolved and the sequence of ids of the current order
  equals the sequence of ids of that guess; in particular an unsolved round rejects the
  order just guessed until it changes. A solved round never disables the button, and
  neither does a round without a guess.
\<close>

theorem guess_disabled_repeat:
  assumes "length cur = length (order s)"
    and "\<forall>c \<in> set cur \<union> set (order s). CHR '','' \<notin> set (card_id c)"
  shows "guess_disabled (setOrder cur (handleGuess s)) =
           (\<not> isSolved (handleGuess s) \<and> map card_id cur = map card_id (order s)) \<and>
         (\<not> isSolved (handleGuess s) \<longrightarrow> guess_disabled (setOrder (order s) (handleGuess s))) \<and>
         (isSolved (handleGuess s) \<longrightarrow> \<not> guess_disabled (setOrder cur (handleGuess s))) \<and>
         (isSolved t \<longrightarrow> \<not> guess_disabled t) \<and>
         (guessHistory t = [] \<longrightarrow> \<not> guess_disabled t)"
proof -
  have inj: "(join '','' (map card_id cur) = join '','' (map card_id (order s))) =
    (map card_id cur = map card_id (order s))"
  proof
    assume "join '','' (map card_id cur) = join '','' (map card_id (order s))"
    with assms show "map card_id cur = map card_id (order s)"
      by (intro join_comma_inj) auto
  next
    assume "map card_id cur = map card_id (order s)"
    then show "join '','' (map card_id cur) = join '','' (map card_id (order s))"
      by simp
  qed
  have same: "\<not> isSolved (handleGuess s) \<longrightarrow> guess_disabled (setOrder (order s) (handleGuess s))"
    using guess_disabled_after [of "order s" s] by simp
  have gen: "(isSolved t \<longrightarrow> \<not> guess_disabled t) \<and> (guessHistory t = [] \<longrightarrow> \<not> guess_disabled t)"
    by (simp add: guess_disabled_def Let_def)
  from inj same gen guess_disabled_after [of cur s] show ?thesis by blast
qed

theorem guess_disabled_repeat_witness:
  "guess_disabled (setOrder (order abc_round) (handleGuess abc_round)) = True \<and>
   guess_disabled (setOrder
      [ranked_card ''B'' ''b'' 3, ranked_card ''A'' ''a'' 10, ranked_card ''C'' ''c'' 7]
      (handleGuess abc_round)) = False \<and>
   guess_disabled abc_round = False \<and>
   guess_disabled (handleGuess (setOrder
      [ranked_card ''B'' ''b'' 3, ranked_card ''C'' ''c'' 7, ranked_card ''A'' ''a'' 10]
      (handleGuess abc_round))) = False"
proof -
  have l: "length [ranked_card ''B'' ''b'' 3, ranked_card ''A'' ''a'' 10, ranked_card ''C'' ''c'' 7] =
      length (order abc_round)"
    by (simp add: abc_round_def new_round_def)
  have i: "\<forall>c \<in> set [ranked_card ''B'' ''b'' 3, ranked_card ''A'' ''a'' 10, ranked_card ''C'' ''c'' 7]
      \<union> set (order abc_round). CHR '','' \<notin> set (card_id c)"
    by (simp add: abc_round_def new_round_def ranked_card_def plain_card_def)
  have u: "\<not> isSolved (handleGuess abc_round)"
    by (simp add: handleGuess_def Let_def abc_round_def new_round_def ranked_card_def
        plain_card_def getRanks_def upt_rec)
  have m: "map card_id [ranked_card ''B'' ''b'' 3, ranked_card ''A'' ''a'' 10,
      ranked_card ''C'' ''c'' 7] \<noteq> map card_id (order abc_round)"
    by (simp add: abc_round_def new_round_def ranked_card_def plain_card_def)
  note t = guess_disabled_repeat [OF l i, of abc_round]
  from t u have a: "guess_disabled (setOrder (order abc_round) (handleGuess abc_round)) = True"
    by blast
  from t m have b: "guess_disabled (setOrder
      [ranked_card ''B'' ''b'' 3, ranked_card ''A'' ''a'' 10, ranked_card ''C'' ''c'' 7]
      (handleGuess abc_round)) = False"
    by blast
  have c: "guess_disabled abc_round = False"
    by (simp add: guess_disabled_def abc_round_def new_round_def)
  have d: "guess_disabled (handleGuess (setOrder
      [ranked_card ''B'' ''b'' 3, ranked_card ''C'' ''c'' 7, ranked_card ''A'' ''a'' 10]
      (handleGuess abc_round))) = False"
    by (simp add: guess_disabled_def setOrder_def handleGuess_def Let_def abc_round_def
        new_round_def ranked_card_def plain_card_def getRanks_def upt_rec)
  from a b c d show ?thesis by blast
qed

subsection \<open>The seed of the day and the daily selection\<close>

lemma digit_char_props:
  assumes "d < 10"
  shows "is_digit (digit_char d) \<and> digit_value (digit_char d) = d"
proof -
  from assms consider "d = 0" | "d = 1" | "d = 2" | "d = 3" | "d = 4" | "d = 5" | "d = 6"
    | "d = 7" | "d = 8" | "d = 9"
    by atomize_elim presburger
  then show ?thesis
    by cases (simp_all add: is_digit_def digit_value_def digit_char_def)
qed

lemma is_digit_not_minus: "is_digit c \<Longrightarrow> c \<noteq> CHR ''-''"
  by (auto simp: is_digit_def)

lemma decimal_value_snoc: "decimal_value (s @ [c]) = 10 * decimal_value s + digit_value c"
  by (simp add: decimal_value_def)

lemma decimal_value_append:
  "decimal_value (s @ r) = decimal_value s * 10 ^ length r + decimal_value r"
proof (induction r rule: rev_induct)
  case Nil
  show ?case by (simp add: decimal_value_def)
next
  case (snoc c r)
  have "decimal_value (s @ r @ [c]) = 10 * decimal_value (s @ r) + digit_value c"
    using decimal_value_snoc [of "s @ r" c] by simp
  then show ?case
    by (simp add: snoc.IH decimal_value_snoc algebra_simps)
qed

lemma digits_props:
  "digits n \<noteq> [] \<and> list_all is_digit (digits n) \<and> decimal_value (digits n) = n"
proof (induction n rule: digits.induct)
  case (1 n)
  show ?case
  proof (cases "n < 10")
    case True
    then show ?thesis
      using digit_char_props [of n]
      by (simp add: digits.simps [of n] decimal_value_def)
  next
    case False
    with 1 have ih: "list_all is_digit (digits (n div 10))" "decimal_value (digits (n div 10)) = n div 10"
      by simp_all
    have "n mod 10 < 10" by simp
    from digit_char_props [OF this] ih False show ?thesis
      by (simp add: digits.simps [of n] decimal_value_snoc)
  qed
qed

lemma padStart2_props:
  assumes "k < 100"
  shows "length (padStart2 (toString (int k))) = 2 \<and>
         list_all is_digit (padStart2 (toString (int k))) \<and>
         decimal_value (padStart2 (toString (int k))) = k"
proof (cases "k < 10")
  case True
  then have "digits k = [digit_char k]" by (simp add: digits.simps [of k])
  moreover have "is_digit CHR ''0''" "digit_value CHR ''0'' = 0"
    by (simp_all add: is_digit_def digit_value_def)
  ultimately show ?thesis
    using digit_char_props [OF True]
    by (simp add: padStart2_def toString_def decimal_value_def)
next
  case False
  with assms have d: "k div 10 < 10" "k mod 10 < 10" by auto
  then have "digits (k div 10) = [digit_char (k div 10)]"
    by (simp add: digits.simps [of "k div 10"])
  with False have "digits k = [digit_char (k div 10), digit_char (k mod 10)]"
    by (simp add: digits.simps [of k])
  then show ?thesis
    using digit_char_props [OF d(1)] digit_char_props [OF d(2)]
    by (simp add: padStart2_def toString_def decimal_value_def)
qed

lemma days_in_month_le: "days_in_month y m \<le> 31"
  by (simp add: days_in_month_def)

lemma getDailySeed_value:
  assumes "valid_instant t"
  shows "getDailySeed t = Some (seed_value t)"
proof -
  let ?m = "padStart2 (toString (int (utcMonth t + 1)))"
  let ?d = "padStart2 (toString (int (utcDate t)))"
  from assms have "utcMonth t + 1 < 100"
    by (simp add: valid_instant_def)
  note m = padStart2_props [OF this]
  from assms days_in_month_le [of "utcFullYear t" "utcMonth t"] have "utcDate t < 100"
    by (simp add: valid_instant_def)
  note d = padStart2_props [OF this]
  have md: "list_all is_digit (?m @ ?d)"
       "decimal_value (?m @ ?d) = (utcMonth t + 1) * 100 + utcDate t"
    using m d by (simp_all add: decimal_value_append)
  have len: "length (?m @ ?d) = 4" using m d by simp
  show ?thesis
  proof (cases "utcFullYear t < 0")
    case True
    let ?y = "digits (nat (- utcFullYear t))"
    have y: "?y \<noteq> []" "list_all is_digit ?y" "decimal_value ?y = nat (- utcFullYear t)"
      using digits_props [of "nat (- utcFullYear t)"] by simp_all
    have "decimal_value (?y @ ?m @ ?d) =
        nat (- utcFullYear t) * 10000 + ((utcMonth t + 1) * 100 + utcDate t)"
      using decimal_value_append [of ?y "?m @ ?d"] y(3) md(2) len by simp
    moreover have "list_all is_digit (?y @ ?m @ ?d)" using y(2) md(1) by simp
    ultimately show ?thesis
      using True y(1)
      by (simp add: getDailySeed_def Let_def toString_def Number_def seed_value_def)
  next
    case False
    let ?y = "digits (nat (utcFullYear t))"
    have y: "?y \<noteq> []" "list_all is_digit ?y" "decimal_value ?y = nat (utcFullYear t)"
      using digits_props [of "nat (utcFullYear t)"] by simp_all
    have v: "decimal_value (?y @ ?m @ ?d) =
        nat (utcFullYear t) * 10000 + ((utcMonth t + 1) * 100 + utcDate t)"
      using decimal_value_append [of ?y "?m @ ?d"] y(3) md(2) len by simp
    have a: "list_all is_digit (?y @ ?m @ ?d)" using y(2) md(1) by simp
    obtain c r where cr: "?y @ ?m @ ?d = c # r"
      using y(1) by (cases "?y @ ?m @ ?d") auto
    from a have "list_all is_digit (c # r)" unfolding cr .
    then have "is_digit c" by simp
    then have "c \<noteq> CHR ''-''" by (rule is_digit_not_minus)
    with cr a v False show ?thesis
      by (simp add: getDailySeed_def Let_def toString_def Number_def seed_value_def)
  qed
qed

lemma decimal_fields:
  fixes A B :: int
  assumes "A * 100 + int x = B * 100 + int y" and "x < 100" and "y < 100"
  shows "A = B \<and> x = y"
proof -
  have "(A * 100 + int x) mod 100 = int x" "(B * 100 + int y) mod 100 = int y"
    using assms(2,3) by simp_all
  with assms(1) have "int x = int y" by simp
  with assms(1) show ?thesis by simp
qed

lemma seed_digits_inj:
  assumes "valid_instant a" and "valid_instant b" and "seed_digits a = seed_digits b"
  shows "\<bar>utcFullYear a\<bar> = \<bar>utcFullYear b\<bar> \<and> utcMonth a = utcMonth b \<and> utcDate a = utcDate b"
proof -
  have ba: "utcMonth a + 1 < 100" "utcDate a < 100"
    using assms(1) days_in_month_le [of "utcFullYear a" "utcMonth a"]
    by (simp_all add: valid_instant_def)
  have bb: "utcMonth b + 1 < 100" "utcDate b < 100"
    using assms(2) days_in_month_le [of "utcFullYear b" "utcMonth b"]
    by (simp_all add: valid_instant_def)
  have "(\<bar>utcFullYear a\<bar> * 100 + int (utcMonth a + 1)) * 100 + int (utcDate a) =
        (\<bar>utcFullYear b\<bar> * 100 + int (utcMonth b + 1)) * 100 + int (utcDate b)"
    using assms(3) by (simp add: seed_digits_def algebra_simps)
  from decimal_fields [OF this ba(2) bb(2)]
  have 1: "\<bar>utcFullYear a\<bar> * 100 + int (utcMonth a + 1) =
           \<bar>utcFullYear b\<bar> * 100 + int (utcMonth b + 1)" and 2: "utcDate a = utcDate b"
    by simp_all
  from decimal_fields [OF 1 ba(1) bb(1)] 2 show ?thesis by simp
qed

lemma seed_digits_pos: "valid_instant t \<Longrightarrow> 0 < seed_digits t"
  by (simp add: seed_digits_def valid_instant_def add_pos_nonneg)

lemma seed_value_digits:
  "seed_value t = (if utcFullYear t < 0 then - seed_digits t else seed_digits t)"
  by (simp add: seed_value_def seed_digits_def Let_def)

lemma seed_value_inj:
  assumes "valid_instant a" and "valid_instant b" and "seed_value a = seed_value b"
  shows "same_utc_day a b"
proof -
  note pa = seed_digits_pos [OF assms(1)] and pb = seed_digits_pos [OF assms(2)]
  have sign: "(utcFullYear a < 0) = (utcFullYear b < 0)"
    using assms(3) pa pb by (auto simp: seed_value_digits split: if_splits)
  then have "seed_digits a = seed_digits b"
    using assms(3) by (auto simp: seed_value_digits split: if_splits)
  from seed_digits_inj [OF assms(1,2) this] sign show ?thesis
    by (auto simp: same_utc_day_def abs_if split: if_splits)
qed

lemma next_day_differs: "valid_instant t \<Longrightarrow> \<not> same_utc_day (next_day t) t"
  by (auto simp: next_day_def same_utc_day_def valid_instant_def)

lemma next_day_valid: "valid_instant t \<Longrightarrow> valid_instant (next_day t)"
  by (auto simp: next_day_def valid_instant_def days_in_month_def)

lemma same_utc_day_seed_value: "same_utc_day a b \<Longrightarrow> seed_value a = seed_value b"
  by (simp add: same_utc_day_def seed_value_def)

text \<open>
  C1. For instants of the UTC calendar: the seed is the integer whose decimal digits are
  those of year, month and day. Two instants of the same UTC day have the same seed, and
  the daily selection run at either of them, on the same pool and with the same rank
  answers, gives the same result (the same cards in the same order, or the same
  exception). Instants of different days, and so an instant and any instant of the
  following day, have different seeds.
\<close>

theorem daily_selection_reproducible:
  assumes "valid_instant t1" and "valid_instant t2"
  shows "getDailySeed t1 = Some (seed_value t1) \<and>
         (same_utc_day t1 t2 \<longrightarrow>
            getDailySeed t1 = getDailySeed t2 \<and>
            pickValidRankedCommanders Math_sin pool fetchRank t1 n maxAttempts =
              pickValidRankedCommanders Math_sin pool fetchRank t2 n maxAttempts) \<and>
         (\<not> same_utc_day t1 t2 \<longrightarrow> getDailySeed t1 \<noteq> getDailySeed t2) \<and>
         valid_instant (next_day t1) \<and>
         (same_utc_day (next_day t1) t2 \<longrightarrow> getDailySeed t2 \<noteq> getDailySeed t1)"
proof -
  note s1 = getDailySeed_value [OF assms(1)] and s2 = getDailySeed_value [OF assms(2)]
  have same: "same_utc_day t1 t2 \<longrightarrow>
            getDailySeed t1 = getDailySeed t2 \<and>
            pickValidRankedCommanders Math_sin pool fetchRank t1 n maxAttempts =
              pickValidRankedCommanders Math_sin pool fetchRank t2 n maxAttempts"
  proof
    assume "same_utc_day t1 t2"
    then have "getDailySeed t1 = getDailySeed t2"
      using s1 s2 by (simp add: same_utc_day_seed_value)
    then show "getDailySeed t1 = getDailySeed t2 \<and>
            pickValidRankedCommanders Math_sin pool fetchRank t1 n maxAttempts =
              pickValidRankedCommanders Math_sin pool fetchRank t2 n maxAttempts"
      by (simp add: pickValidRankedCommanders_def)
  qed
  have diff: "\<not> same_utc_day t1 t2 \<longrightarrow> getDailySeed t1 \<noteq> getDailySeed t2"
    using seed_value_inj [OF assms] s1 s2 by auto
  have nv: "valid_instant (next_day t1)"
    using assms(1) by (rule next_day_valid)
  have nxt: "same_utc_day (next_day t1) t2 \<longrightarrow> getDailySeed t2 \<noteq> getDailySeed t1"
  proof
    assume n: "same_utc_day (next_day t1) t2"
    have "\<not> same_utc_day t1 t2"
      using n next_day_differs [OF assms(1)] by (auto simp: same_utc_day_def)
    with diff show "getDailySeed t2 \<noteq> getDailySeed t1" by auto
  qed
  from s1 same diff nv nxt show ?thesis by blast
qed

lemma getDailySeed_examples:
  "getDailySeed (leap_day 0) = Some 20240229"
  "getDailySeed (leap_day 86399999) = Some 20240229"
  "getDailySeed (next_day (leap_day 0)) = Some 20240301"
  by (simp_all add: getDailySeed_def leap_day_def next_day_def days_in_month_def leap_year_def
      toString_def padStart2_def Number_def digits.simps digit_char_def is_digit_def
      decimal_value_def digit_value_def)

lemma pick_loop_example:
  "pick_loop (\<lambda>x. 0) example_ranks 20240229 2 50
     [plain_card ''Atraxa'', plain_card ''Golos'', plain_card ''Krenko'', plain_card ''Tymna'']
     [] 0 =
   Inr [(plain_card ''Atraxa'')\<lparr>rank := Some 5\<rparr>, (plain_card ''Krenko'')\<lparr>rank := Some 2\<rparr>]"
  by (simp add: pick_loop.simps seededRandom_def random_index_def element_def splice1_def
      example_ranks_def positive_number_def plain_card_def)

theorem daily_selection_reproducible_witness:
  "valid_instant (leap_day 0) \<and> valid_instant (leap_day 86399999) \<and>
   same_utc_day (leap_day 0) (leap_day 86399999) \<and>
   getDailySeed (leap_day 0) = Some 20240229 \<and>
   getDailySeed (leap_day 86399999) = Some 20240229 \<and>
   getDailySeed (next_day (leap_day 0)) = Some 20240301 \<and>
   pickValidRankedCommanders (\<lambda>x. 0)
     [plain_card ''Atraxa'', plain_card ''Golos'', plain_card ''Krenko'', plain_card ''Tymna'']
     example_ranks (leap_day 0) 2 50 =
     Inr [(plain_card ''Atraxa'')\<lparr>rank := Some 5\<rparr>, (plain_card ''Krenko'')\<lparr>rank := Some 2\<rparr>] \<and>
   pickValidRankedCommanders (\<lambda>x. 0)
     [plain_card ''Atraxa'', plain_card ''Golos'', plain_card ''Krenko'', plain_card ''Tymna'']
     example_ranks (leap_day 86399999) 2 50 =
     Inr [(plain_card ''Atraxa'')\<lparr>rank := Some 5\<rparr>, (plain_card ''Krenko'')\<lparr>rank := Some 2\<rparr>]"
proof -
  have v: "valid_instant (leap_day 0)" "valid_instant (leap_day 86399999)"
    by (simp_all add: valid_instant_def leap_day_def days_in_month_def leap_year_def)
  have d: "same_utc_day (leap_day 0) (leap_day 86399999)"
    by (simp add: same_utc_day_def leap_day_def)
  note t = daily_selection_reproducible [OF v, of "\<lambda>x. 0"
      "[plain_card ''Atraxa'', plain_card ''Golos'', plain_card ''Krenko'', plain_card ''Tymna'']"
      example_ranks 2 50]
  have p: "pickValidRankedCommanders (\<lambda>x. 0)
     [plain_card ''Atraxa'', plain_card ''Golos'', plain_card ''Krenko'', plain_card ''Tymna'']
     example_ranks (leap_day 0) 2 50 =
     Inr [(plain_card ''Atraxa'')\<lparr>rank := Some 5\<rparr>, (plain_card ''Krenko'')\<lparr>rank := Some 2\<rparr>]"
    by (simp add: pickValidRankedCommanders_def getDailySeed_examples pick_loop_example)
  from v d t p getDailySeed_examples show ?thesis by metis
qed

subsection \<open>The slug of a card name\<close>

lemma is_alnum_not_hyphen: "is_alnum c \<Longrightarrow> c \<noteq> CHR ''-''"
  by (auto simp: is_alnum_def)

lemma hyphenate_head:
  "s = [] \<or> is_alnum (hd s) \<Longrightarrow> hyphenate s = [] \<or> is_alnum (hd (hyphenate s))"
  by (cases s) auto

lemma dropWhile_head: "dropWhile P s = [] \<or> \<not> P (hd (dropWhile P s))"
  by (metis hd_dropWhile)

lemma well_hyphenated_hyphenate: "well_hyphenated (hyphenate s)"
proof (induction s rule: hyphenate.induct)
  case 1
  show ?case by simp
next
  case (2 c cs)
  show ?case
  proof (cases "is_alnum c")
    case True
    with 2 show ?thesis by simp
  next
    case False
    let ?r = "dropWhile (\<lambda>x. \<not> is_alnum x) cs"
    have "?r = [] \<or> is_alnum (hd ?r)"
      using dropWhile_head [of "\<lambda>x. \<not> is_alnum x" cs] by simp
    then have "hyphenate ?r = [] \<or> is_alnum (hd (hyphenate ?r))"
      by (rule hyphenate_head)
    with False 2 show ?thesis
      by (simp add: is_alnum_not_hyphen)
  qed
qed

lemma hyphenate_id: "well_hyphenated s \<Longrightarrow> hyphenate s = s"
proof (induction s)
  case Nil
  show ?case by simp
next
  case (Cons c cs)
  show ?case
  proof (cases "is_alnum c")
    case True
    with Cons show ?thesis by simp
  next
    case False
    with Cons.prems have h: "c = CHR ''-''" "cs = [] \<or> is_alnum (hd cs)" "well_hyphenated cs"
      by simp_all
    from h(2) have "dropWhile (\<lambda>x. \<not> is_alnum x) cs = cs"
      by (cases cs) auto
    with False h Cons.IH show ?thesis by simp
  qed
qed

lemma well_hyphenated_append:
  "well_hyphenated (xs @ ys) \<Longrightarrow> well_hyphenated xs \<and> well_hyphenated ys"
proof (induction xs)
  case Nil
  then show ?case by simp
next
  case (Cons c cs)
  then show ?case
    by (cases cs) (auto split: if_splits)
qed

lemma well_hyphenated_chars: "well_hyphenated s \<Longrightarrow> list_all slug_char s"
  by (induction s) (auto simp: slug_char_def split: if_splits)

lemma rev_dropWhile_rev_split:
  "xs = rev (dropWhile P (rev xs)) @ rev (takeWhile P (rev xs))"
proof -
  have "rev xs = takeWhile P (rev xs) @ dropWhile P (rev xs)"
    by simp
  then have "rev (rev xs) = rev (takeWhile P (rev xs) @ dropWhile P (rev xs))"
    by (rule arg_cong)
  then show ?thesis
    by (simp only: rev_rev_ident rev_append)
qed

lemma trim_hyphens_middle:
  "\<exists>p q. s = p @ trim_hyphens s @ q"
proof -
  let ?P = "\<lambda>c. c = CHR ''-''"
  let ?d = "dropWhile ?P s"
  have "?d = trim_hyphens s @ rev (takeWhile ?P (rev ?d))"
    unfolding trim_hyphens_def by (rule rev_dropWhile_rev_split)
  moreover have "s = takeWhile ?P s @ ?d" by simp
  ultimately have "s = takeWhile ?P s @ trim_hyphens s @ rev (takeWhile ?P (rev ?d))"
    by simp
  then show ?thesis by blast
qed

lemma trim_hyphens_ends:
  assumes "trim_hyphens s \<noteq> []"
  shows "hd (trim_hyphens s) \<noteq> CHR ''-'' \<and> last (trim_hyphens s) \<noteq> CHR ''-''"
proof -
  let ?P = "\<lambda>c. c = CHR ''-''"
  let ?d = "dropWhile ?P s"
  let ?e = "dropWhile ?P (rev ?d)"
  have t: "trim_hyphens s = rev ?e" by (simp add: trim_hyphens_def)
  with assms have e: "?e \<noteq> []" by simp
  then have "\<not> ?P (hd ?e)" using dropWhile_head [of ?P "rev ?d"] by blast
  then have l: "last (trim_hyphens s) \<noteq> CHR ''-''"
    using e by (simp add: t last_rev)
  have d: "?d = trim_hyphens s @ rev (takeWhile ?P (rev ?d))"
    unfolding trim_hyphens_def by (rule rev_dropWhile_rev_split)
  have "?d \<noteq> []"
  proof
    assume a: "?d = []"
    have "rev (dropWhile ?P (rev ?d)) = []"
      unfolding a by simp
    then have "trim_hyphens s = []" by (simp only: trim_hyphens_def)
    with assms show False by simp
  qed
  then have nd: "\<not> ?P (hd ?d)" using dropWhile_head [of ?P s] by blast
  have h1: "hd ?d = hd (trim_hyphens s @ rev (takeWhile ?P (rev ?d)))"
    using d by (rule arg_cong)
  have h2: "hd (trim_hyphens s @ rev (takeWhile ?P (rev ?d))) = hd (trim_hyphens s)"
    using assms by (rule hd_append2)
  from h1 h2 have "hd ?d = hd (trim_hyphens s)" by (rule trans)
  with nd have "hd (trim_hyphens s) \<noteq> CHR ''-''" by simp
  then show ?thesis using l by simp
qed

lemma trim_hyphens_id:
  assumes "s = [] \<or> (hd s \<noteq> CHR ''-'' \<and> last s \<noteq> CHR ''-'')"
  shows "trim_hyphens s = s"
proof (cases "s = []")
  case True
  then show ?thesis by (simp add: trim_hyphens_def)
next
  case False
  with assms have h: "hd s \<noteq> CHR ''-''" "last s \<noteq> CHR ''-''" by simp_all
  from False h(1) have 1: "dropWhile (\<lambda>c. c = CHR ''-'') s = s"
    by (cases s) auto
  from False h(2) have "hd (rev s) \<noteq> CHR ''-''"
    by (simp add: hd_rev)
  with False have 2: "dropWhile (\<lambda>c. c = CHR ''-'') (rev s) = rev s"
    by (cases "rev s") auto
  show ?thesis by (simp add: trim_hyphens_def 1 2)
qed

lemma well_hyphenated_pattern:
  "well_hyphenated r \<Longrightarrow> r \<noteq> [] \<Longrightarrow> hd r \<noteq> CHR ''-'' \<Longrightarrow> last r \<noteq> CHR ''-'' \<Longrightarrow>
   matches_slug_pattern r"
proof (induction "length r" arbitrary: r rule: less_induct)
  case less
  let ?w = "takeWhile is_alnum r"
  let ?rest = "dropWhile is_alnum r"
  have split: "r = ?w @ ?rest" by simp
  obtain c cs where r: "r = c # cs" using less.prems(2) by (cases r) auto
  with less.prems(1,3) have "is_alnum c" by (auto split: if_splits)
  with r have w: "alnum_run ?w"
    by (simp add: alnum_run_def list_all_iff) (metis set_takeWhileD)
  show ?case
  proof (cases "?rest = []")
    case True
    with split have "r = ?w @ concat (map (\<lambda>v. CHR ''-'' # v) [])" by simp
    with w show ?thesis
      unfolding matches_slug_pattern_def by (metis list.pred_inject(1))
  next
    case False
    then obtain d ds where rest: "?rest = d # ds" by (cases ?rest) auto
    have wr: "well_hyphenated ?rest"
      using less.prems(1) well_hyphenated_append [of ?w ?rest] by simp
    have "\<not> is_alnum d"
      using rest dropWhile_head [of is_alnum r] by simp
    with wr rest have d: "d = CHR ''-''" "ds = [] \<or> is_alnum (hd ds)" "well_hyphenated ds"
      by simp_all
    have "last (?w @ ?rest) = last ?rest" using False by (rule last_appendR)
    then have "last r = last ?rest" by (simp only: takeWhile_dropWhile_id)
    with less.prems(4) rest d(1) have ne: "ds \<noteq> []" by auto
    with d(2) have hd: "hd ds \<noteq> CHR ''-''" by (auto dest: is_alnum_not_hyphen)
    have "last ?rest = last ds" using rest ne by simp
    with \<open>last r = last ?rest\<close> have "last ds = last r" by simp
    with less.prems(4) have la: "last ds \<noteq> CHR ''-''" by simp
    have "length ?rest \<le> length r" by (rule length_dropWhile_le)
    with rest have "length ds < length r" by simp
    from less.hyps [OF \<open>length ds < length r\<close> d(3) ne hd la]
    obtain v vs where v: "alnum_run v" "list_all alnum_run vs"
      "ds = v @ concat (map (\<lambda>v. CHR ''-'' # v) vs)"
      unfolding matches_slug_pattern_def by blast
    have "r = ?w @ concat (map (\<lambda>v. CHR ''-'' # v) (v # vs))"
      using split rest d(1) v(3) by simp
    moreover have "list_all alnum_run (v # vs)" using v by simp
    ultimately show ?thesis
      unfolding matches_slug_pattern_def using w by blast
  qed
qed

lemma remove_punctuation_id: "list_all slug_char s \<Longrightarrow> remove_punctuation s = s"
  by (induction s) (auto simp: remove_punctuation_def slug_char_def is_alnum_def punctuation_def)

lemma slugify_well_hyphenated:
  "well_hyphenated (slugify normalize_NFD strip_diacritics toLowerCase x)"
proof -
  let ?h = "hyphenate (remove_punctuation (toLowerCase (strip_diacritics (normalize_NFD x))))"
  obtain p q where "?h = p @ trim_hyphens ?h @ q"
    using trim_hyphens_middle [of ?h] by blast
  then have "well_hyphenated (p @ trim_hyphens ?h @ q)"
    using well_hyphenated_hyphenate [of "remove_punctuation (toLowerCase (strip_diacritics (normalize_NFD x)))"]
    by simp
  then have "well_hyphenated (trim_hyphens ?h)"
    using well_hyphenated_append by blast
  then show ?thesis by (simp add: slugify_def)
qed

text \<open>
  C6. The result of \<^verbatim>\<open>slugify\<close> is the empty string or matches
  \<^verbatim>\<open>^[a-z0-9]+(-[a-z0-9]+)*$\<close>, and \<^verbatim>\<open>slugify\<close> is idempotent, for every input
  string, given that the three Unicode steps leave a string of lower-case ASCII letters,
  digits and hyphens as it is.
\<close>

theorem slugify_idempotent_shape:
  assumes "\<And>s. list_all slug_char s \<Longrightarrow> normalize_NFD s = s"
    and "\<And>s. list_all slug_char s \<Longrightarrow> strip_diacritics s = s"
    and "\<And>s. list_all slug_char s \<Longrightarrow> toLowerCase s = s"
  shows "(slugify normalize_NFD strip_diacritics toLowerCase x = [] \<or>
          matches_slug_pattern (slugify normalize_NFD strip_diacritics toLowerCase x)) \<and>
         slugify normalize_NFD strip_diacritics toLowerCase
           (slugify normalize_NFD strip_diacritics toLowerCase x) =
         slugify normalize_NFD strip_diacritics toLowerCase x"
proof -
  let ?r = "slugify normalize_NFD strip_diacritics toLowerCase x"
  let ?h = "hyphenate (remove_punctuation (toLowerCase (strip_diacritics (normalize_NFD x))))"
  have r: "?r = trim_hyphens ?h" by (simp add: slugify_def)
  have wh: "well_hyphenated ?r" by (rule slugify_well_hyphenated)
  have ends: "?r = [] \<or> (hd ?r \<noteq> CHR ''-'' \<and> last ?r \<noteq> CHR ''-'')"
    unfolding r using trim_hyphens_ends [of ?h] by blast
  have shape: "?r = [] \<or> matches_slug_pattern ?r"
    using wh ends well_hyphenated_pattern [of ?r] by blast
  have chars: "list_all slug_char ?r"
    using wh by (rule well_hyphenated_chars)
  have "toLowerCase (strip_diacritics (normalize_NFD ?r)) = ?r"
    using chars assms by simp
  then have "slugify normalize_NFD strip_diacritics toLowerCase ?r =
      trim_hyphens (hyphenate (remove_punctuation ?r))"
    by (simp add: slugify_def)
  also have "\<dots> = trim_hyphens (hyphenate ?r)"
    using chars by (simp add: remove_punctuation_id)
  also have "\<dots> = trim_hyphens ?r"
    using wh by (simp add: hyphenate_id)
  also have "\<dots> = ?r"
    using ends by (rule trim_hyphens_id)
  finally show ?thesis using shape by blast
qed

lemma slugify_atraxa:
  "slugify (\<lambda>s. s) (\<lambda>s. s) ascii_toLowerCase atraxa_name = ''atraxa-praetors-voice''"
  by (simp add: slugify_def atraxa_name_def ascii_toLowerCase_def ascii_lower_def remove_punctuation_def
      punctuation_def is_alnum_def trim_hyphens_def)

lemma slug_char_not_upper: "slug_char c \<Longrightarrow> c \<notin> set ''ABCDEFGHIJKLMNOPQRSTUVWXYZ''"
  by (auto simp: slug_char_def is_alnum_def)

lemma ascii_lower_id:
  assumes "slug_char c"
  shows "ascii_lower c = c"
proof -
  from assms have "c \<notin> set ''ABCDEFGHIJKLMNOPQRSTUVWXYZ''"
    by (rule slug_char_not_upper)
  then have "map_of (zip ''ABCDEFGHIJKLMNOPQRSTUVWXYZ'' ''abcdefghijklmnopqrstuvwxyz'') c = None"
    by (subst map_of_zip_is_None) simp_all
  then show ?thesis
    unfolding ascii_lower_def by (simp only: option.case)
qed

lemma ascii_toLowerCase_id: "list_all slug_char s \<Longrightarrow> ascii_toLowerCase s = s"
  by (induction s) (simp_all add: ascii_toLowerCase_def ascii_lower_id)

theorem slugify_idempotent_shape_witness:
  "slugify (\<lambda>s. s) (\<lambda>s. s) ascii_toLowerCase atraxa_name = ''atraxa-praetors-voice'' \<and>
   matches_slug_pattern ''atraxa-praetors-voice'' \<and>
   slugify (\<lambda>s. s) (\<lambda>s. s) ascii_toLowerCase ''atraxa-praetors-voice'' = ''atraxa-praetors-voice'' \<and>
   slugify (\<lambda>s. s) (\<lambda>s. s) ascii_toLowerCase ''?!'' = []"
proof -
  have e: "slugify (\<lambda>s. s) (\<lambda>s. s) ascii_toLowerCase ''?!'' = []"
    by (simp add: slugify_def ascii_toLowerCase_def ascii_lower_def remove_punctuation_def
        punctuation_def trim_hyphens_def)
  note t = slugify_idempotent_shape [of "\<lambda>s. s" "\<lambda>s. s" ascii_toLowerCase atraxa_name,
      OF refl refl ascii_toLowerCase_id, unfolded slugify_atraxa]
  have n: "''atraxa-praetors-voice'' \<noteq> []" by simp
  from t n have "matches_slug_pattern ''atraxa-praetors-voice''" by blast
  moreover from t have "slugify (\<lambda>s. s) (\<lambda>s. s) ascii_toLowerCase ''atraxa-praetors-voice'' =
      ''atraxa-praetors-voice''" by blast
  ultimately show ?thesis using e slugify_atraxa by blast
qed

subsection \<open>The rank resolver\<close>













end
